theory Spec2Isabelle
  imports Complex_Main
begin

text \<open>
  A shallow embedding of the search core of the integrated-information library:
  the class \<open>Subsystem\<close> of \<open>subsystem.py\<close> (identity, cuts, the cause repertoire,
  the search for the minimum information partition and for the maximally irreducible
  cause or effect) and the distance between constellations and the big MIP of
  \<open>compute.py\<close>.  The first sections hold the model, function by function; the
  sections named "Verification" hold what is proved of it.
\<close>

section \<open>Python values used by the search core\<close>

text \<open>
  Python floats as the code compares them: a finite float is abstracted to the real it
  denotes, the two infinities and NaN are kept apart.  \<open>flt\<close> is Python's \<open><\<close>,
  \<open>fgt\<close> is \<open>>\<close> and \<open>feq\<close> is \<open>==\<close>: every comparison with NaN is false.
\<close>

datatype pyfloat = NaN | NegInf | Fin real | PosInf

fun flt :: "pyfloat \<Rightarrow> pyfloat \<Rightarrow> bool" where
  "flt (Fin a) (Fin b) = (a < b)"
| "flt NegInf (Fin b) = True"
| "flt NegInf PosInf = True"
| "flt (Fin a) PosInf = True"
| "flt _ _ = False"

definition fgt :: "pyfloat \<Rightarrow> pyfloat \<Rightarrow> bool" where
  "fgt a b = flt b a"

fun feq :: "pyfloat \<Rightarrow> pyfloat \<Rightarrow> bool" where
  "feq NaN _ = False"
| "feq _ NaN = False"
| "feq a b = (a = b)"

text \<open>The exceptions the modelled code raises.\<close>

datatype error = ValueError | TypeError | IndexError

section \<open>The Subsystem class (subsystem.py)\<close>

text \<open>
  The attributes \<open>__init__\<close> sets.  \<open>cut_attr\<close> is the private attribute \<open>_cut\<close>, the
  pair (severed, intact).  The type of nodes and the type of networks are parameters:
  equality on them is the \<open>==\<close> of the Node and Network classes.  The record is
  extensible, so a statement about every \<open>subsystem_scheme\<close> holds whatever further
  state an instance carries.
\<close>

record ('n, 'net) subsystem =
  nodes :: "'n list"
  current_state :: "nat list"
  past_state :: "nat list"
  network :: 'net
  external_nodes :: "'n set"
  cut_attr :: "'n list \<times> 'n list"

text \<open>
  \<open>__init__\<close>: \<open>net_nodes\<close> stands for \<open>network.nodes\<close>; the initial cut severs
  nothing.
\<close>

definition init_subsystem ::
  "'n list \<Rightarrow> nat list \<Rightarrow> nat list \<Rightarrow> 'net \<Rightarrow> 'n list \<Rightarrow> ('n, 'net) subsystem" where
  "init_subsystem ns cur past net net_nodes =
     \<lparr>nodes = ns, current_state = cur, past_state = past, network = net,
      external_nodes = set net_nodes - set ns, cut_attr = ([], ns)\<rparr>"

text \<open>
  \<open>__eq__\<close> and \<open>__hash__\<close>.  \<open>np.array_equal\<close> on two state vectors is equality of
  the vectors.  The built-in \<open>hash\<close> of the 4-tuple and \<open>ndarray.tostring\<close> are
  parameters (\<open>py_hash\<close>, \<open>tostring\<close>): all that is used of them is that they are
  functions of their argument.
\<close>

definition subsystem_eq ::
  "('n, 'net, 'x) subsystem_scheme \<Rightarrow> ('n, 'net, 'y) subsystem_scheme \<Rightarrow> bool" where
  "subsystem_eq self other =
     (set (nodes self) = set (nodes other) \<and>
      current_state self = current_state other \<and>
      past_state self = past_state other \<and>
      network self = network other)"

definition subsystem_hash ::
  "('n set \<times> 'b \<times> 'b \<times> 'net \<Rightarrow> int) \<Rightarrow> (nat list \<Rightarrow> 'b)
   \<Rightarrow> ('n, 'net, 'x) subsystem_scheme \<Rightarrow> int" where
  "subsystem_hash py_hash tostring self =
     py_hash (set (nodes self), tostring (current_state self),
              tostring (past_state self), network self)"

text \<open>
  \<open>cut\<close>.  An argument is a tuple of nodes or a single node, which the method wraps
  into a 1-tuple.  The method returns nothing: the result is the exception raised, if
  any, and the instance afterwards.
\<close>

datatype 'n cut_arg = Tuple "'n list" | Single 'n

fun as_tuple :: "'n cut_arg \<Rightarrow> 'n list" where
  "as_tuple (Tuple ns) = ns"
| "as_tuple (Single n) = [n]"

definition cut ::
  "('n, 'net, 'x) subsystem_scheme \<Rightarrow> 'n cut_arg \<Rightarrow> 'n cut_arg
   \<Rightarrow> error option \<times> ('n, 'net, 'x) subsystem_scheme" where
  "cut self severed_arg intact_arg =
     (let severed = as_tuple severed_arg;
          intact = as_tuple intact_arg
      in if \<not> (length (nodes self) = length (severed @ intact) \<and>
                set (nodes self) = set (severed @ intact))
         then (Some ValueError, self)
         else (None, self\<lparr>cut_attr := (severed, intact)\<rparr>))"

section \<open>Mechanism-level partition search (subsystem.py)\<close>

subsection \<open>Containers\<close>

text \<open>
  The named tuples \<open>a_part\<close>, \<open>a_mip\<close> and \<open>a_mice\<close>.  Two of them have a field
  \<open>purview\<close>, so the fields carry the tuple's name as a prefix.
\<close>

record 'n a_part =
  part_mechanism :: "'n list"
  part_purview :: "'n list"

record ('n, 'r) a_mip =
  mip_partition :: "'n a_part \<times> 'n a_part"
  mip_repertoire :: 'r
  mip_difference :: pyfloat

record 'n a_mice =
  mice_purview :: "'n list option"
  mice_phi :: pyfloat

subsection \<open>Enumerations of utils.py\<close>

text \<open>
  Modelled from the spec: \<open>utils.bipartition\<close> belongs to \<open>utils.py\<close>, which this
  development does not cover.
  The spec speaks of "every bipartition" of a sequence, and \<open>mip_bipartition\<close> adds the
  mirrored orientation itself, so each unordered split into two subsequences is listed
  once; \<open>compute.py\<close> notes that the first one is the trivial split.  The last element
  always stays in the second half.
\<close>

fun bipartition :: "'a list \<Rightarrow> ('a list \<times> 'a list) list" where
  "bipartition [] = [([], [])]"
| "bipartition [x] = [([], [x])]"
| "bipartition (x # xs) =
     concat (map (\<lambda>(a, b). [(a, x # b), (x # a, b)]) (bipartition xs))"

text \<open>
  Modelled from the spec: \<open>utils.powerset\<close> belongs to \<open>utils.py\<close>, which this
  development does not cover.  The spec: "every subset of the subsystem's nodes (its full powerset, including the empty
  set)".  Each subset is listed once, as a subsequence of the given tuple.
\<close>

definition powerset :: "'a list \<Rightarrow> 'a list list" where
  "powerset xs = rev (subseqs xs)"

subsection \<open>mip_bipartition\<close>

text \<open>
  The generator, as the list of the pairs it yields.  \<open>bp\<close> is the bipartition
  enumeration it calls.  The inner loop runs over the bipartitions of the mechanism
  (the numerators), the outer loop over the bipartitions of the purview followed by
  their mirror images (the denominators).
\<close>

definition valid_partition :: "'n list \<times> 'n list \<Rightarrow> 'n list \<times> 'n list \<Rightarrow> bool" where
  "valid_partition numerators denominators =
     (set (fst numerators) \<inter> set (fst denominators) = {} \<and>
      set (snd numerators) \<inter> set (snd denominators) = {} \<and>
      length (fst numerators) + length (fst denominators) > 0 \<and>
      length (snd numerators) + length (snd denominators) > 0)"

fun numerators_loop ::
  "'n list \<times> 'n list \<Rightarrow> ('n list \<times> 'n list) list \<Rightarrow> ('n a_part \<times> 'n a_part) list" where
  "numerators_loop denominators [] = []"
| "numerators_loop denominators (numerators # rest) =
     (if valid_partition numerators denominators
      then (\<lparr>part_mechanism = fst numerators, part_purview = fst denominators\<rparr>,
            \<lparr>part_mechanism = snd numerators, part_purview = snd denominators\<rparr>)
           # numerators_loop denominators rest
      else numerators_loop denominators rest)"

fun denominators_loop ::
  "('n list \<Rightarrow> ('n list \<times> 'n list) list) \<Rightarrow> 'n list \<Rightarrow> ('n list \<times> 'n list) list
   \<Rightarrow> ('n a_part \<times> 'n a_part) list" where
  "denominators_loop bp mech [] = []"
| "denominators_loop bp mech (denominators # rest) =
     numerators_loop denominators (bp mech) @ denominators_loop bp mech rest"

definition mip_bipartition ::
  "('n list \<Rightarrow> ('n list \<times> 'n list) list) \<Rightarrow> 'n list \<Rightarrow> 'n list
   \<Rightarrow> ('n a_part \<times> 'n a_part) list" where
  "mip_bipartition bp mech purv =
     (let purview_bipartitions = bp purv
      in denominators_loop bp mech
           (purview_bipartitions @ map (\<lambda>x. (snd x, fst x)) purview_bipartitions))"

subsection \<open>find_mip\<close>

text \<open>
  What \<open>find_mip\<close> calls and this development does not look into: the two repertoire
  methods, the product \<open>*\<close> of two repertoires, the distance \<open>emd\<close> and the
  bipartition enumeration.  The search is verified for every choice of them.
\<close>

record ('n, 'r) search_ops =
  cause_rep :: "'n list \<Rightarrow> 'n list \<Rightarrow> 'r"
  effect_rep :: "'n list \<Rightarrow> 'n list \<Rightarrow> 'r"
  rep_times :: "'r \<Rightarrow> 'r \<Rightarrow> 'r"
  emd :: "'r \<Rightarrow> 'r \<Rightarrow> pyfloat"
  bipartition_of :: "'n list \<Rightarrow> ('n list \<times> 'n list) list"

text \<open>\<open>EPSILON = 10**-10\<close>, a float.\<close>

definition EPSILON :: pyfloat where
  "EPSILON = Fin (1 / 10 ^ 10)"

text \<open>
  The loop over the candidate bipartitions, with the loop variables \<open>mip\<close> and
  \<open>difference_min\<close>.  Every iteration prints its candidate before it decides; the
  first component of the result is the list of the candidates printed, the second is
  what the function returns.
\<close>

fun mip_loop ::
  "('n a_part \<times> 'n a_part \<Rightarrow> 'r) \<Rightarrow> ('r \<Rightarrow> pyfloat) \<Rightarrow> ('n a_part \<times> 'n a_part) list
   \<Rightarrow> ('n, 'r) a_mip option \<Rightarrow> pyfloat
   \<Rightarrow> ('n a_part \<times> 'n a_part) list \<times> ('n, 'r) a_mip option" where
  "mip_loop partitioned distance_to [] mip difference_min = ([], mip)"
| "mip_loop partitioned distance_to (c # cs) mip difference_min =
     (let partitioned_repertoire = partitioned c;
          difference = distance_to partitioned_repertoire
      in if flt difference EPSILON then ([c], None)
         else if flt difference difference_min
         then (let (printed, result) =
                     mip_loop partitioned distance_to cs
                       (Some \<lparr>mip_partition = c, mip_repertoire = partitioned_repertoire,
                              mip_difference = difference\<rparr>)
                       difference
               in (c # printed, result))
         else (let (printed, result) = mip_loop partitioned distance_to cs mip difference_min
               in (c # printed, result)))"

definition partitioned_repertoire_of ::
  "('n list \<Rightarrow> 'n list \<Rightarrow> 'r) \<Rightarrow> ('r \<Rightarrow> 'r \<Rightarrow> 'r) \<Rightarrow> 'n a_part \<times> 'n a_part \<Rightarrow> 'r" where
  "partitioned_repertoire_of get_repertoire mul c =
     (case c of (part0, part1) \<Rightarrow>
        mul (get_repertoire (part_mechanism part0) (part_purview part0))
              (get_repertoire (part_mechanism part1) (part_purview part1)))"

definition find_mip_with ::
  "('n, 'r) search_ops \<Rightarrow> ('n list \<Rightarrow> 'n list \<Rightarrow> 'r) \<Rightarrow> 'n list \<Rightarrow> 'n list
   \<Rightarrow> ('n a_part \<times> 'n a_part) list \<times> ('n, 'r) a_mip option" where
  "find_mip_with ops get_repertoire mech purv =
     (let unpartitioned_repertoire = get_repertoire mech purv
      in mip_loop (partitioned_repertoire_of get_repertoire (rep_times ops))
           (emd ops unpartitioned_repertoire)
           (mip_bipartition (bipartition_of ops) mech purv) None PosInf)"

text \<open>
  The choice of the repertoire method by the direction, with its validation, and the
  distance \<open>find_mip\<close> computes for one candidate.
\<close>

definition get_repertoire ::
  "('n, 'r) search_ops \<Rightarrow> string \<Rightarrow> error + ('n list \<Rightarrow> 'n list \<Rightarrow> 'r)" where
  "get_repertoire ops direction =
     (if direction = ''past'' then Inr (cause_rep ops)
      else if direction = ''future'' then Inr (effect_rep ops)
      else Inl ValueError)"

definition difference_of ::
  "('n, 'r) search_ops \<Rightarrow> ('n list \<Rightarrow> 'n list \<Rightarrow> 'r) \<Rightarrow> 'n list \<Rightarrow> 'n list
   \<Rightarrow> 'n a_part \<times> 'n a_part \<Rightarrow> pyfloat" where
  "difference_of ops get mech purv c =
     emd ops (get mech purv) (partitioned_repertoire_of get (rep_times ops) c)"

definition find_mip ::
  "('n, 'r) search_ops \<Rightarrow> string \<Rightarrow> 'n list \<Rightarrow> 'n list
   \<Rightarrow> error + ('n a_part \<times> 'n a_part) list \<times> ('n, 'r) a_mip option" where
  "find_mip ops direction mech purv =
     (case get_repertoire ops direction of
        Inl e \<Rightarrow> Inl e
      | Inr get \<Rightarrow> Inr (find_mip_with ops get mech purv))"

definition mip_past ::
  "('n, 'r) search_ops \<Rightarrow> 'n list \<Rightarrow> 'n list
   \<Rightarrow> error + ('n a_part \<times> 'n a_part) list \<times> ('n, 'r) a_mip option" where
  "mip_past ops mech purv = find_mip ops ''past'' mech purv"

definition mip_future ::
  "('n, 'r) search_ops \<Rightarrow> 'n list \<Rightarrow> 'n list
   \<Rightarrow> error + ('n a_part \<times> 'n a_part) list \<times> ('n, 'r) a_mip option" where
  "mip_future ops mech purv = find_mip ops ''future'' mech purv"

subsection \<open>find_mice\<close>

text \<open>
  The loop over the candidate purviews, with the loop variables \<open>phi_max\<close> and
  \<open>maximal_purview\<close>.  A named tuple of three fields is true, \<open>None\<close> is false.
  \<open>len(maximal_purview)\<close> raises TypeError while \<open>maximal_purview\<close> is \<open>None\<close>;
  Python evaluates it only when \<open>phi > phi_max\<close> is false and \<open>phi == phi_max\<close> is
  true.
\<close>

fun mice_loop ::
  "('n list \<Rightarrow> error + ('n a_part \<times> 'n a_part) list \<times> ('n, 'r) a_mip option)
   \<Rightarrow> 'n list list \<Rightarrow> pyfloat \<Rightarrow> 'n list option \<Rightarrow> error + 'n a_mice" where
  "mice_loop find_mip_of [] phi_max maximal_purview =
     Inr \<lparr>mice_purview = maximal_purview, mice_phi = phi_max\<rparr>"
| "mice_loop find_mip_of (purv # rest) phi_max maximal_purview =
     (case find_mip_of purv of
        Inl e \<Rightarrow> Inl e
      | Inr (printed, None) \<Rightarrow> mice_loop find_mip_of rest phi_max maximal_purview
      | Inr (printed, Some mip) \<Rightarrow>
          (let phi = mip_difference mip
           in if fgt phi phi_max then mice_loop find_mip_of rest phi (Some purv)
              else if feq phi phi_max
              then (case maximal_purview of
                      None \<Rightarrow> Inl TypeError
                    | Some mp \<Rightarrow>
                        if length purv > length mp
                        then mice_loop find_mip_of rest phi (Some purv)
                        else mice_loop find_mip_of rest phi_max maximal_purview)
              else mice_loop find_mip_of rest phi_max maximal_purview))"

definition find_mice ::
  "('n, 'r) search_ops \<Rightarrow> ('n, 'net, 'x) subsystem_scheme \<Rightarrow> string \<Rightarrow> 'n list
   \<Rightarrow> error + 'n a_mice" where
  "find_mice ops self direction mech =
     (if direction = ''past''
      then mice_loop (mip_past ops mech) (powerset (nodes self)) NegInf None
      else if direction = ''future''
      then mice_loop (mip_future ops mech) (powerset (nodes self)) NegInf None
      else Inl ValueError)"

section \<open>The cause repertoire (subsystem.py)\<close>

subsection \<open>Arrays\<close>

text \<open>
  A NumPy array of floats: its shape and its entry at each index tuple.  Only the
  entries at index tuples inside the shape are entries of the array.  \<open>indices\<close>
  lists the index tuples of a shape.
\<close>

record ndarray =
  shape :: "nat list"
  elems :: "nat list \<Rightarrow> real"

definition indices :: "nat list \<Rightarrow> nat list list" where
  "indices sh = product_lists (map (\<lambda>d. [0..<d]) sh)"

definition np_ones :: "nat list \<Rightarrow> ndarray" where
  "np_ones sh = \<lparr>shape = sh, elems = (\<lambda>i. 1)\<rparr>"

text \<open>\<open>1 - a\<close>, \<open>np.sum(a)\<close> and \<open>np.divide(a, c)\<close> for a number \<open>c\<close>.\<close>

definition one_minus :: "ndarray \<Rightarrow> ndarray" where
  "one_minus a = \<lparr>shape = shape a, elems = (\<lambda>i. 1 - elems a i)\<rparr>"

definition np_sum :: "ndarray \<Rightarrow> real" where
  "np_sum a = sum_list (map (elems a) (indices (shape a)))"

definition np_divide :: "ndarray \<Rightarrow> real \<Rightarrow> ndarray" where
  "np_divide a c = \<lparr>shape = shape a, elems = (\<lambda>i. elems a i / c)\<rparr>"

text \<open>
  \<open>np.multiply(a, b)\<close> with broadcasting: the shorter shape is padded with 1 on the
  left; two dimensions are compatible when they are equal or one of them is 1, and
  an axis of length 1 is read at index 0.  Incompatible shapes raise ValueError.
\<close>

definition broadcast_shape :: "nat list \<Rightarrow> nat list \<Rightarrow> nat list option" where
  "broadcast_shape s t =
     (let n = max (length s) (length t);
          s' = replicate (n - length s) 1 @ s;
          t' = replicate (n - length t) 1 @ t
      in if list_all2 (\<lambda>x y. x = y \<or> x = 1 \<or> y = 1) s' t'
         then Some (map2 (\<lambda>x y. if x = 1 then y else x) s' t')
         else None)"

definition project :: "nat list \<Rightarrow> nat list \<Rightarrow> nat list" where
  "project sh i = map2 (\<lambda>d k. if d = 1 then 0 else k) sh (drop (length i - length sh) i)"

definition np_multiply :: "ndarray \<Rightarrow> ndarray \<Rightarrow> error + ndarray" where
  "np_multiply a b =
     (case broadcast_shape (shape a) (shape b) of
        None \<Rightarrow> Inl ValueError
      | Some sh \<Rightarrow>
          Inr \<lparr>shape = sh,
               elems = (\<lambda>i. elems a (project (shape a) i) * elems b (project (shape b) i))\<rparr>)"

text \<open>
  \<open>a[conditioning_indices]\<close>, where \<open>conditioning_indices\<close> is a list of \<open>n\<close> full
  slices with the one-element list \<open>[k]\<close> at position \<open>axis\<close>: the entries at index
  \<open>k\<close> of that axis, the axis kept with length 1.  More indices than the array has
  axes, or \<open>k\<close> outside the axis, raise IndexError.
\<close>

definition take_index :: "ndarray \<Rightarrow> nat \<Rightarrow> nat \<Rightarrow> nat \<Rightarrow> error + ndarray" where
  "take_index a n axis k =
     (if length (shape a) < n then Inl IndexError
      else if \<not> k < shape a ! axis then Inl IndexError
      else Inr \<lparr>shape = (shape a)[axis := 1], elems = (\<lambda>i. elems a (i[axis := k]))\<rparr>)"

subsection \<open>Nodes and networks\<close>

text \<open>
  What \<open>cause_repertoire\<close> reads of a node (its index and its table \<open>tpm\<close>, the
  probability that the node is on, by the state of the network) and of a network
  (its nodes and its size).  The \<open>==\<close> of two nodes is the equality of the records.
\<close>

record node =
  index :: nat
  tpm :: ndarray

record network =
  net_nodes :: "node list"
  net_size :: nat

text \<open>
  Modelled from the spec: \<open>utils.max_entropy_distribution\<close> belongs to \<open>utils.py\<close>,
  which this development does not cover.  The spec: "the purview's maximum-entropy distribution
  (uniform)", a repertoire being a "dense tensor indexed by purview node states".
  The array has one axis for each node of the network, of length 2 for a node of the
  purview and 1 otherwise (the shape \<open>cause_repertoire\<close> gives its own result), and
  every entry is one over the number of entries.
\<close>

definition purview_shape :: "node list \<Rightarrow> network \<Rightarrow> nat list" where
  "purview_shape purv net = map (\<lambda>n. if n \<in> set purv then 2 else 1) (net_nodes net)"

definition max_entropy_distribution :: "node list \<Rightarrow> network \<Rightarrow> ndarray" where
  "max_entropy_distribution purv net =
     \<lparr>shape = purview_shape purv net,
      elems = (\<lambda>i. 1 / real (prod_list (purview_shape purv net)))\<rparr>"

text \<open>
  Modelled from the spec: \<open>utils.marginalize_out\<close> belongs to \<open>utils.py\<close>, which
  this development does not cover.  The spec: "marginalize out every remaining non-purview input"; \<open>node.py\<close>
  marginalizes an axis out as \<open>tpm.sum(i, keepdims=True) / 2\<close>.  The entries along
  the axis of the node are averaged and the axis is kept with length 1.
\<close>

definition marginalize_out :: "node \<Rightarrow> ndarray \<Rightarrow> error + ndarray" where
  "marginalize_out n a =
     (if \<not> index n < length (shape a) then Inl IndexError
      else Inr \<lparr>shape = (shape a)[index n := 1],
                elems = (\<lambda>i. sum_list (map (\<lambda>k. elems a (i[index n := k]))
                                         [0..<shape a ! index n])
                              / real (shape a ! index n))\<rparr>)"

subsection \<open>cause_repertoire\<close>

text \<open>
  The result is an array or the Python number 1.
\<close>

datatype repertoire = Scalar real | Array ndarray

text \<open>
  The two inner loops.  Python iterates over the set \<open>boundary_inputs\<close> (and
  \<open>marginal_inputs\<close>) in an order of its own; here the nodes are taken in the order
  of \<open>network.nodes\<close>.  Reading \<open>past_state[node.index]\<close> and writing
  \<open>conditioning_indices[node.index]\<close> raise IndexError outside the lists.
\<close>

fun boundary_loop :: "nat list \<Rightarrow> nat \<Rightarrow> node list \<Rightarrow> ndarray \<Rightarrow> error + ndarray" where
  "boundary_loop past n [] conditioned_tpm = Inr conditioned_tpm"
| "boundary_loop past n (nd # rest) conditioned_tpm =
     (if \<not> index nd < length past \<or> \<not> index nd < n then Inl IndexError
      else case take_index conditioned_tpm n (index nd) (past ! index nd) of
             Inl e \<Rightarrow> Inl e
           | Inr conditioned_tpm' \<Rightarrow> boundary_loop past n rest conditioned_tpm')"

fun marginal_loop :: "node list \<Rightarrow> ndarray \<Rightarrow> error + ndarray" where
  "marginal_loop [] conditioned_tpm = Inr conditioned_tpm"
| "marginal_loop (nd # rest) conditioned_tpm =
     (case marginalize_out nd conditioned_tpm of
        Inl e \<Rightarrow> Inl e
      | Inr conditioned_tpm' \<Rightarrow> marginal_loop rest conditioned_tpm')"

text \<open>
  The body of the loop over the mechanism, up to the product: the table of one
  mechanism node, conditioned on the node's current state and on the past states of
  the boundary inputs, with the marginal inputs averaged out.
\<close>

definition conditioned_tpm_of ::
  "(node, network, 'x) subsystem_scheme \<Rightarrow> node list \<Rightarrow> node \<Rightarrow> error + ndarray" where
  "conditioned_tpm_of self purv mechanism_node =
     (if \<not> index mechanism_node < length (current_state self) then Inl IndexError
      else
        (let conditioned_tpm =
               (if current_state self ! index mechanism_node = 1 then tpm mechanism_node
                else one_minus (tpm mechanism_node));
             network_nodes = remdups (net_nodes (network self));
             non_purview_inputs = (\<lambda>n. n \<notin> set purv);
             severed_inputs = (\<lambda>n. n \<in> set (fst (cut_attr self)) \<and>
                                     mechanism_node \<in> set (snd (cut_attr self)));
             boundary_inputs = filter (\<lambda>n. (non_purview_inputs n \<or> severed_inputs n) \<and>
                                             n \<notin> set (nodes self)) network_nodes;
             marginal_inputs = filter (\<lambda>n. (non_purview_inputs n \<or> severed_inputs n) \<and>
                                             n \<notin> set boundary_inputs) network_nodes
         in case boundary_loop (past_state self) (net_size (network self))
                   boundary_inputs conditioned_tpm of
              Inl e \<Rightarrow> Inl e
            | Inr conditioned_tpm' \<Rightarrow> marginal_loop marginal_inputs conditioned_tpm'))"

fun mechanism_loop ::
  "(node, network, 'x) subsystem_scheme \<Rightarrow> node list \<Rightarrow> node list \<Rightarrow> ndarray
   \<Rightarrow> error + ndarray" where
  "mechanism_loop self purv [] cjd = Inr cjd"
| "mechanism_loop self purv (mechanism_node # rest) cjd =
     (case conditioned_tpm_of self purv mechanism_node of
        Inl e \<Rightarrow> Inl e
      | Inr conditioned_tpm \<Rightarrow>
          (case np_multiply cjd conditioned_tpm of
             Inl e \<Rightarrow> Inl e
           | Inr cjd' \<Rightarrow> mechanism_loop self purv rest cjd'))"

text \<open>
  \<open>accumulated_cjd\<close> is the joint of the whole mechanism before the normalization:
  the value of \<open>cjd\<close> when the loop over the mechanism ends.
\<close>

definition accumulated_cjd ::
  "(node, network, 'x) subsystem_scheme \<Rightarrow> node list \<Rightarrow> node list \<Rightarrow> error + ndarray" where
  "accumulated_cjd self mech purv =
     mechanism_loop self purv mech (np_ones (purview_shape purv (network self)))"

text \<open>
  \<open>cause_repertoire\<close>.  \<open>max_entropy\<close> stands for \<open>utils.max_entropy_distribution\<close>:
  the method is verified for whatever array that function returns.
\<close>

definition cause_repertoire ::
  "(node list \<Rightarrow> network \<Rightarrow> ndarray) \<Rightarrow> (node, network, 'x) subsystem_scheme
   \<Rightarrow> node list \<Rightarrow> node list \<Rightarrow> error + repertoire" where
  "cause_repertoire max_entropy self mech purv =
     (if length mech = 0
      then Inr (Array (max_entropy purv (network self)))
      else if length purv = 0 then Inr (Scalar 1)
      else case accumulated_cjd self mech purv of
             Inl e \<Rightarrow> Inl e
           | Inr cjd \<Rightarrow>
               (let cjd_sum = np_sum cjd
                in if cjd_sum \<noteq> 0 then Inr (Array (np_divide cjd cjd_sum))
                   else Inr (Array cjd)))"

section \<open>Subsystem-level computation (compute.py)\<close>

subsection \<open>The cache around big_mip\<close>

text \<open>
  \<open>_big_mip\<close> is decorated with \<open>memory.cache(ignore=["subsystem"])\<close>: the stored
  results are keyed by the remaining argument, \<open>cache_key\<close>, alone.  \<open>big_mip\<close> passes
  \<open>hash(subsystem)\<close> for it.  The store is a map from keys to results; a call returns
  its result and the store afterwards.  \<open>impl\<close> is the body of \<open>_big_mip\<close>.
\<close>

definition memory_cache ::
  "(int \<rightharpoonup> 'b) \<Rightarrow> int \<Rightarrow> 'b \<Rightarrow> 'b \<times> (int \<rightharpoonup> 'b)" where
  "memory_cache store cache_key computed =
     (case store cache_key of
        Some stored \<Rightarrow> (stored, store)
      | None \<Rightarrow> (computed, store(cache_key \<mapsto> computed)))"

definition big_mip ::
  "('n set \<times> 'b \<times> 'b \<times> 'net \<Rightarrow> int) \<Rightarrow> (nat list \<Rightarrow> 'b)
   \<Rightarrow> (int \<Rightarrow> ('n, 'net, 'x) subsystem_scheme \<Rightarrow> 'r)
   \<Rightarrow> (int \<rightharpoonup> 'r) \<Rightarrow> ('n, 'net, 'x) subsystem_scheme \<Rightarrow> 'r \<times> (int \<rightharpoonup> 'r)" where
  "big_mip py_hash tostring impl store subsystem =
     memory_cache store (subsystem_hash py_hash tostring subsystem)
       (impl (subsystem_hash py_hash tostring subsystem) subsystem)"

subsection \<open>Distance between constellations\<close>

text \<open>
  A concept, as far as \<open>compute.py\<close> reads it: \<open>phi\<close>, and the equality \<open>in\<close>
  tests.  The class \<open>Concept\<close> belongs to \<open>models.py\<close>, which this development does
  not cover; its \<open>==\<close> is
  taken to be the equality of the fields.  A \<open>phi\<close> is a finite float, modelled by
  the real it denotes.
\<close>

record ('n, 'm) concept =
  concept_mechanism :: "'n list"
  concept_phi :: real
  concept_cause :: "'m option"
  concept_effect :: "'m option"

text \<open>
  \<open>concept_distance\<close>, \<open>subsystem.null_concept\<close> and the three-argument \<open>utils.emd\<close>
  are parameters (\<open>cd\<close>, \<open>null_concept\<close>, \<open>emd3\<close>).  The \<open>lru_cache\<close> decorators
  store results of pure functions and are left out.
\<close>

definition constellation_distance_simple ::
  "(('n, 'm) concept \<Rightarrow> ('n, 'm) concept \<Rightarrow> real) \<Rightarrow> ('n, 'm) concept
   \<Rightarrow> ('n, 'm) concept list \<Rightarrow> ('n, 'm) concept list \<Rightarrow> real" where
  "constellation_distance_simple cd null_concept C1 C2 =
     (let (C1', C2') = (if length C2 > length C1 then (C2, C1) else (C1, C2));
          destroyed = filter (\<lambda>c. c \<notin> set C2') C1'
      in sum_list (map (\<lambda>c. concept_phi c * cd c null_concept) destroyed))"

text \<open>
  The first half of \<open>_constellation_distance_emd\<close>: the list of all concepts, and the
  two phi distributions after the residual has been assigned.  \<open>d[-1] = residual\<close>
  writes the last entry; the lists end with the entry of the null concept, so they
  are not empty.
\<close>

definition all_concepts_of ::
  "('n, 'm) concept \<Rightarrow> ('n, 'm) concept list \<Rightarrow> ('n, 'm) concept list
   \<Rightarrow> ('n, 'm) concept list \<Rightarrow> ('n, 'm) concept list \<Rightarrow> ('n, 'm) concept list" where
  "all_concepts_of null_concept C1 C2 unique_C1 unique_C2 =
     (let shared_concepts = filter (\<lambda>c. c \<in> set C2) C1
      in shared_concepts @ unique_C1 @ unique_C2 @ [null_concept])"

definition phi_distributions ::
  "('n, 'm) concept \<Rightarrow> ('n, 'm) concept list \<Rightarrow> ('n, 'm) concept list
   \<Rightarrow> ('n, 'm) concept list \<Rightarrow> ('n, 'm) concept list \<Rightarrow> real list \<times> real list" where
  "phi_distributions null_concept C1 C2 unique_C1 unique_C2 =
     (let all_concepts = all_concepts_of null_concept C1 C2 unique_C1 unique_C2;
          d1 = map (\<lambda>c. if c \<in> set C1 then concept_phi c else 0) all_concepts;
          d2 = map (\<lambda>c. if c \<in> set C2 then concept_phi c else 0) all_concepts;
          residual = sum_list d1 - sum_list d2;
          d2 = (if residual > 0 then d2[length d2 - 1 := residual] else d2);
          d1 = (if residual < 0 then d1[length d1 - 1 := residual] else d1)
      in (d1, d2))"

definition constellation_distance_emd ::
  "(real list \<Rightarrow> real list \<Rightarrow> real list list \<Rightarrow> real)
   \<Rightarrow> (('n, 'm) concept \<Rightarrow> ('n, 'm) concept \<Rightarrow> real) \<Rightarrow> ('n, 'm) concept
   \<Rightarrow> ('n, 'm) concept list \<Rightarrow> ('n, 'm) concept list
   \<Rightarrow> ('n, 'm) concept list \<Rightarrow> ('n, 'm) concept list \<Rightarrow> real" where
  "constellation_distance_emd emd3 cd null_concept C1 C2 unique_C1 unique_C2 =
     (let all_concepts = all_concepts_of null_concept C1 C2 unique_C1 unique_C2;
          (d1, d2) = phi_distributions null_concept C1 C2 unique_C1 unique_C2;
          distance_matrix = map (\<lambda>j. map (\<lambda>i. cd i j) all_concepts) all_concepts
      in emd3 d1 d2 distance_matrix)"

definition constellation_distance ::
  "(real list \<Rightarrow> real list \<Rightarrow> real list list \<Rightarrow> real)
   \<Rightarrow> (('n, 'm) concept \<Rightarrow> ('n, 'm) concept \<Rightarrow> real) \<Rightarrow> ('n, 'm) concept
   \<Rightarrow> ('n, 'm) concept list \<Rightarrow> ('n, 'm) concept list \<Rightarrow> real" where
  "constellation_distance emd3 cd null_concept C1 C2 =
     (let concepts_only_in_C1 = filter (\<lambda>c. c \<notin> set C2) C1;
          concepts_only_in_C2 = filter (\<lambda>c. c \<notin> set C1) C2
      in if concepts_only_in_C1 = [] \<or> concepts_only_in_C2 = []
         then constellation_distance_simple cd null_concept C1 C2
         else constellation_distance_emd emd3 cd null_concept C1 C2
                concepts_only_in_C1 concepts_only_in_C2)"

subsection \<open>The big MIP of a subsystem\<close>

text \<open>
  The graph of a square matrix: an entry that is not zero is an edge from its row to
  its column.  \<open>classes\<close> counts the classes of the nodes \<open>0, ..., n - 1\<close> under an
  equivalence.
\<close>

definition edges :: "nat list list \<Rightarrow> (nat \<times> nat) set" where
  "edges cm =
     set (concat (map (\<lambda>i. concat (map (\<lambda>j. if cm ! i ! j \<noteq> 0 then [(i, j)] else [])
                                          [0..<length cm]))
                      [0..<length cm]))"

definition classes :: "nat \<Rightarrow> (nat \<Rightarrow> nat \<Rightarrow> bool) \<Rightarrow> nat" where
  "classes n related = card ((\<lambda>i. set (filter (related i) [0..<n])) ` set [0..<n])"

text \<open>
  \<open>scipy.sparse.csgraph.connected_components(csgraph)\<close>, called as \<open>_big_mip\<close> calls
  it, with one argument.  SciPy's signature is
  \<open>connected_components(csgraph, directed=True, connection='weak', return_labels=True)\<close>:
  without the keyword \<open>connection='strong'\<close> it counts the weakly connected
  components.  Two nodes are weakly connected when a path joins them in the graph
  with every edge taken in both directions.
\<close>

definition connected_components :: "nat list list \<Rightarrow> nat" where
  "connected_components cm =
     classes (length cm)
       (\<lambda>i j. i = j \<or> (i, j) \<in> (edges cm \<union> (edges cm)\<inverse>)\<^sup>+)"

text \<open>
  The result type \<open>BigMip\<close> (of \<open>models.py\<close>, which this development does not
  cover), with the fields
  \<open>_null_mip\<close> and \<open>_single_node_mip\<close> set.
\<close>

record ('s, 'c) bigmip =
  bigmip_subsystem :: 's
  bigmip_phi :: real
  unpartitioned_constellation :: "'c list option"
  partitioned_constellation :: "'c list option"

definition null_mip :: "'s \<Rightarrow> ('s, 'c) bigmip" where
  "null_mip subsystem =
     \<lparr>bigmip_subsystem = subsystem, bigmip_phi = 0,
      unpartitioned_constellation = Some [], partitioned_constellation = Some []\<rparr>"

definition single_node_mip :: "bool \<Rightarrow> 's \<Rightarrow> ('s, 'c) bigmip" where
  "single_node_mip single_nodes_with_selfloops_have_phi subsystem =
     (if single_nodes_with_selfloops_have_phi
      then \<lparr>bigmip_subsystem = subsystem, bigmip_phi = 1 / 2,
            unpartitioned_constellation = None, partitioned_constellation = None\<rparr>
      else null_mip subsystem)"

text \<open>
  What \<open>_big_mip\<close> uses of other modules, or of functions this development does not
  look into: the index of a node, the connectivity matrix of a network, the
  constant \<open>SINGLE_NODES_WITH_SELFLOOPS_HAVE_PHI\<close>, \<open>constellation\<close>,
  \<open>_evaluate_partition\<close>, and the order \<open><\<close> of \<open>BigMip\<close> that \<open>min\<close> uses.
\<close>

record ('n, 'net, 's, 'c) compute_ops =
  node_index :: "'n \<Rightarrow> nat"
  connectivity_matrix :: "'net \<Rightarrow> nat list list"
  single_nodes_with_selfloops_have_phi :: bool
  constellation :: "'s \<Rightarrow> 'c list"
  evaluate_partition :: "'s \<Rightarrow> nat list \<times> nat list \<Rightarrow> 'c list \<Rightarrow> ('s, 'c) bigmip"
  bigmip_less :: "('s, 'c) bigmip \<Rightarrow> ('s, 'c) bigmip \<Rightarrow> bool"

text \<open>
  Python's \<open>min\<close> of a list: ValueError on the empty list, else the first of the
  minimal elements.
\<close>

fun py_min :: "('a \<Rightarrow> 'a \<Rightarrow> bool) \<Rightarrow> 'a list \<Rightarrow> error + 'a" where
  "py_min lt [] = Inl ValueError"
| "py_min lt (x # xs) = Inr (foldl (\<lambda>m y. if lt y m then y else m) x xs)"

text \<open>
  \<open>_big_mip\<close>.  Modelled from the spec: the truth value of a Subsystem, which the
  class in \<open>subsystem.py\<close> does not define; the spec has "if the subsystem is
  empty", so \<open>not subsystem\<close> is \<open>nodes = []\<close>.  Indexing the connectivity matrix with
  \<open>np.ix_\<close> raises IndexError for an index outside it.  The result is the list of the
  bipartitions handed to \<open>_evaluate_partition\<close> and the BigMip returned.
  \<open>subsystem.node_indices\<close> is the tuple of the nodes' indices, and \<open>[1:]\<close> drops the
  first bipartition.
\<close>

definition big_mip_impl ::
  "('n, 'net, ('n, 'net, 'x) subsystem_scheme, 'c) compute_ops \<Rightarrow> int
   \<Rightarrow> ('n, 'net, 'x) subsystem_scheme
   \<Rightarrow> error + (nat list \<times> nat list) list \<times> (('n, 'net, 'x) subsystem_scheme, 'c) bigmip" where
  "big_mip_impl ops cache_key subsystem =
     (if length (nodes subsystem) = 1
      then Inr ([], single_node_mip (single_nodes_with_selfloops_have_phi ops) subsystem)
      else if nodes subsystem = [] then Inr ([], null_mip subsystem)
      else
        (let indices = map (node_index ops) (nodes subsystem);
             whole = connectivity_matrix ops (network subsystem)
         in if \<exists>i\<in>set indices. \<not> (i < length whole \<and> (\<forall>row\<in>set whole. i < length row))
            then Inl IndexError
            else
              (let cm = map (\<lambda>i. map (\<lambda>j. whole ! i ! j) indices) indices;
                   num_components = connected_components cm
               in if num_components > 1 then Inr ([], null_mip subsystem)
                  else
                    (let bipartitions = tl (bipartition indices);
                         unpartitioned_constellation = constellation ops subsystem;
                         mip_candidates =
                           map (\<lambda>partition. evaluate_partition ops subsystem partition
                                               unpartitioned_constellation) bipartitions
                     in case py_min (bigmip_less ops) mip_candidates of
                          Inl e \<Rightarrow> Inl e
                        | Inr mip \<Rightarrow> Inr (bipartitions, mip)))))"

section \<open>Notions of the statements\<close>

text \<open>
  The filter of \<open>mip_bipartition\<close> as the specification words it: the two Parts'
  mechanism halves are disjoint, the two Parts' purview halves are disjoint, and no Part
  has both halves empty.  \<open>claimed_mip_bipartition\<close> crosses the same bipartitions as
  the code and keeps a combination under that filter.
\<close>

definition claimed_valid_partition :: "'n list \<times> 'n list \<Rightarrow> 'n list \<times> 'n list \<Rightarrow> bool" where
  "claimed_valid_partition numerators denominators =
     (set (fst numerators) \<inter> set (snd numerators) = {} \<and>
      set (fst denominators) \<inter> set (snd denominators) = {} \<and>
      \<not> (fst numerators = [] \<and> fst denominators = []) \<and>
      \<not> (snd numerators = [] \<and> snd denominators = []))"

definition claimed_mip_bipartition ::
  "('n list \<Rightarrow> ('n list \<times> 'n list) list) \<Rightarrow> 'n list \<Rightarrow> 'n list
   \<Rightarrow> ('n a_part \<times> 'n a_part) list" where
  "claimed_mip_bipartition bp mech purv =
     concat (map (\<lambda>denominators.
        concat (map (\<lambda>numerators.
           if claimed_valid_partition numerators denominators
           then [(\<lparr>part_mechanism = fst numerators, part_purview = fst denominators\<rparr>,
                  \<lparr>part_mechanism = snd numerators, part_purview = snd denominators\<rparr>)]
           else []) (bp mech)))
        (bp purv @ map (\<lambda>x. (snd x, fst x)) (bp purv)))"

text \<open>
  The preference of \<open>find_mice\<close> as the specification words it: the larger phi, and on
  equal phi the purview with more nodes.  \<open>mice_at_least mice phi purv\<close> says that the
  result \<open>mice\<close> is not beaten by a purview \<open>purv\<close> whose MIP has the value \<open>phi\<close>.
\<close>

definition mice_at_least :: "'n a_mice \<Rightarrow> pyfloat \<Rightarrow> 'n list \<Rightarrow> bool" where
  "mice_at_least mice phi purv =
     (\<not> flt (mice_phi mice) phi \<and>
      (mice_phi mice = phi \<longrightarrow>
         (\<exists>q. mice_purview mice = Some q \<and> length purv \<le> length q)))"

text \<open>
  The number of strongly connected components of the graph of a square matrix, the
  notion the specification and the comments of \<open>_big_mip\<close> name: two nodes are in one
  component when each is reachable from the other along directed edges.
\<close>

definition strongly_connected_components :: "nat list list \<Rightarrow> nat" where
  "strongly_connected_components cm =
     classes (length cm)
       (\<lambda>i j. i = j \<or> ((i, j) \<in> (edges cm)\<^sup>+ \<and> (j, i) \<in> (edges cm)\<^sup>+))"

text \<open>
  A table of probabilities: every entry is between 0 and 1.  \<open>nonneg\<close> is the part of
  it that the products keep.
\<close>

definition probabilities :: "ndarray \<Rightarrow> bool" where
  "probabilities a = (\<forall>i. 0 \<le> elems a i \<and> elems a i \<le> 1)"

definition nonneg :: "ndarray \<Rightarrow> bool" where
  "nonneg a = (\<forall>i. 0 \<le> elems a i)"

section \<open>Example inputs\<close>

text \<open>
  Two instances of the operations \<open>find_mip\<close> calls, on nodes numbered by naturals and
  with a real number for a repertoire: under \<open>ops_far\<close> every distance is at least 1,
  under \<open>ops_zero\<close> every distance is 0.
\<close>

definition ops_far :: "(nat, real) search_ops" where
  "ops_far =
     \<lparr>cause_rep = (\<lambda>mech purv. real (length mech)),
      effect_rep = (\<lambda>mech purv. real (length purv)),
      rep_times = (\<lambda>a b. a * b),
      emd = (\<lambda>a b. Fin (\<bar>a - b\<bar> + 1)),
      bipartition_of = bipartition\<rparr>"

definition ops_zero :: "(nat, real) search_ops" where
  "ops_zero = ops_far\<lparr>emd := (\<lambda>a b. Fin 0)\<rparr>"

text \<open>A subsystem of two nodes, numbered 0 and 1, that is its whole network.\<close>

definition two_nodes :: "(nat, unit) subsystem" where
  "two_nodes = init_subsystem [0, 1] [1, 1] [1, 1] () [0, 1]"

text \<open>
  A hash of the 4-tuple of \<open>__hash__\<close> and a \<open>tostring\<close>, for two-node examples, and a
  stand-in for the body of \<open>_big_mip\<close> whose result depends on the cut.
\<close>

definition example_hash :: "nat set \<times> nat list \<times> nat list \<times> unit \<Rightarrow> int" where
  "example_hash t =
     (case t of (ns, cur, past, net) \<Rightarrow>
        int (sum_list cur) + 2 * int (sum_list past) + 3 * int (card ns))"

definition example_tostring :: "nat list \<Rightarrow> nat list" where
  "example_tostring state = state"

definition example_impl :: "int \<Rightarrow> (nat, unit) subsystem \<Rightarrow> nat" where
  "example_impl cache_key subsystem = length (fst (cut_attr subsystem))"

text \<open>
  Three concepts that differ in their mechanism: \<open>concept_a\<close> with phi 1, \<open>concept_b\<close>
  with phi 2, and a null concept with phi 0.
\<close>

definition concept_a :: "(nat, unit) concept" where
  "concept_a = \<lparr>concept_mechanism = [0], concept_phi = 1,
                concept_cause = None, concept_effect = None\<rparr>"

definition concept_b :: "(nat, unit) concept" where
  "concept_b = \<lparr>concept_mechanism = [1], concept_phi = 2,
                concept_cause = None, concept_effect = None\<rparr>"

definition concept_null :: "(nat, unit) concept" where
  "concept_null = \<lparr>concept_mechanism = [], concept_phi = 0,
                   concept_cause = None, concept_effect = None\<rparr>"

text \<open>
  A subsystem of two nodes whose network is given by its connectivity matrix: node 0
  has an edge to node 1 and there is no other edge.
\<close>

definition one_way :: "(nat, nat list list) subsystem" where
  "one_way = init_subsystem [0, 1] [1, 1] [1, 1] [[0, 1], [0, 0]] [0, 1]"

text \<open>
  A network of one node whose table says that the node is never on, and the
  subsystem of that node in the state "on": a state the table gives no mass.
\<close>

definition never_on :: node where
  "never_on = \<lparr>index = 0, tpm = \<lparr>shape = [2], elems = (\<lambda>i. 0)\<rparr>\<rparr>"

definition never_on_network :: network where
  "never_on_network = \<lparr>net_nodes = [never_on], net_size = 1\<rparr>"

definition never_on_subsystem :: "(node, network) subsystem" where
  "never_on_subsystem = init_subsystem [never_on] [1] [0] never_on_network [never_on]"

section \<open>Verification: the order on floats\<close>

lemma flt_irrefl: "\<not> flt a a"
  by (cases a) auto

lemma flt_trans: "flt a b \<Longrightarrow> flt b c \<Longrightarrow> flt a c"
  by (cases a; cases b; cases c) auto

lemma flt_asym: "flt a b \<Longrightarrow> \<not> flt b a"
  using flt_irrefl flt_trans by blast

lemma flt_PosInf_iff: "flt a PosInf \<longleftrightarrow> a = NegInf \<or> (\<exists>r. a = Fin r)"
  by (cases a) auto

lemma not_flt_EPSILON_iff:
  "flt a PosInf \<and> \<not> flt a EPSILON \<longleftrightarrow> (\<exists>r. a = Fin r \<and> 1 / 10 ^ 10 \<le> r)"
  by (cases a) (auto simp: EPSILON_def)

lemma flt_bounded_finite:
  "flt a b \<Longrightarrow> \<not> flt a EPSILON \<Longrightarrow> \<exists>r. a = Fin r \<and> 1 / 10 ^ 10 \<le> r"
  by (cases a; cases b) (auto simp: EPSILON_def)

section \<open>Verification: find_mip\<close>

lemma mip_loop_below:
  "flt (distance_to (partitioned c)) EPSILON \<Longrightarrow>
   mip_loop partitioned distance_to (c # cs) mip dmin = ([c], None)"
  by simp

lemma mip_loop_update:
  "\<not> flt (distance_to (partitioned c)) EPSILON \<Longrightarrow> flt (distance_to (partitioned c)) dmin \<Longrightarrow>
   mip_loop partitioned distance_to (c # cs) mip dmin =
     (c # fst (mip_loop partitioned distance_to cs
                (Some \<lparr>mip_partition = c, mip_repertoire = partitioned c,
                       mip_difference = distance_to (partitioned c)\<rparr>)
                (distance_to (partitioned c))),
      snd (mip_loop partitioned distance_to cs
                (Some \<lparr>mip_partition = c, mip_repertoire = partitioned c,
                       mip_difference = distance_to (partitioned c)\<rparr>)
                (distance_to (partitioned c))))"
  by (simp add: Let_def split: prod.splits)

lemma mip_loop_keep:
  "\<not> flt (distance_to (partitioned c)) EPSILON \<Longrightarrow> \<not> flt (distance_to (partitioned c)) dmin \<Longrightarrow>
   mip_loop partitioned distance_to (c # cs) mip dmin =
     (c # fst (mip_loop partitioned distance_to cs mip dmin),
      snd (mip_loop partitioned distance_to cs mip dmin))"
  by (simp add: Let_def split: prod.splits)

lemma mip_loop_short_circuit:
  "\<forall>x\<in>set pre. \<not> flt (distance_to (partitioned x)) EPSILON \<Longrightarrow>
   flt (distance_to (partitioned c)) EPSILON \<Longrightarrow>
   mip_loop partitioned distance_to (pre @ c # post) mip dmin = (pre @ [c], None)"
proof (induction pre arbitrary: mip dmin)
  case Nil
  then show ?case by (simp add: mip_loop_below)
next
  case (Cons x pre)
  then show ?case
    by (cases "flt (distance_to (partitioned x)) dmin")
       (simp_all add: mip_loop_update mip_loop_keep del: mip_loop.simps)
qed

lemma mip_loop_printed:
  "\<forall>x\<in>set cs. \<not> flt (distance_to (partitioned x)) EPSILON \<Longrightarrow>
   fst (mip_loop partitioned distance_to cs mip dmin) = cs"
proof (induction cs arbitrary: mip dmin)
  case Nil
  then show ?case by simp
next
  case (Cons x cs)
  then show ?case
    by (cases "flt (distance_to (partitioned x)) dmin") (simp_all add: mip_loop_update mip_loop_keep del: mip_loop.simps)
qed


lemma mip_loop_unchanged:
  "\<forall>x\<in>set cs. \<not> flt (distance_to (partitioned x)) EPSILON \<Longrightarrow>
   \<forall>x\<in>set cs. \<not> flt (distance_to (partitioned x)) dmin \<Longrightarrow>
   snd (mip_loop partitioned distance_to cs mip dmin) = mip"
  by (induction cs) (simp_all add: mip_loop_keep del: mip_loop.simps(2))

lemma mip_loop_result:
  "snd (mip_loop partitioned distance_to cs mip dmin) = Some m \<Longrightarrow>
   (mip = Some m \<and> (\<forall>x\<in>set cs. \<not> flt (distance_to (partitioned x)) dmin)) \<or>
   (\<exists>c\<in>set cs.
      m = \<lparr>mip_partition = c, mip_repertoire = partitioned c,
           mip_difference = distance_to (partitioned c)\<rparr> \<and>
      flt (distance_to (partitioned c)) dmin \<and>
      \<not> flt (distance_to (partitioned c)) EPSILON \<and>
      (\<forall>x\<in>set cs. \<not> flt (distance_to (partitioned x)) (distance_to (partitioned c))))"
proof (induction cs arbitrary: mip dmin)
  case Nil
  then show ?case by simp
next
  case (Cons c cs)
  let ?d = "\<lambda>x. distance_to (partitioned x)"
  let ?mc = "\<lparr>mip_partition = c, mip_repertoire = partitioned c, mip_difference = ?d c\<rparr>"
  have above: "\<not> flt (?d c) EPSILON"
    using Cons.prems by (auto simp: mip_loop_below simp del: mip_loop.simps)
  show ?case
  proof (cases "flt (?d c) dmin")
    case True
    with above Cons.prems
    have "snd (mip_loop partitioned distance_to cs (Some ?mc) (?d c)) = Some m"
      by (simp add: mip_loop_update del: mip_loop.simps)
    from Cons.IH [OF this]
    consider (kept) "Some ?mc = Some m" "\<forall>x\<in>set cs. \<not> flt (?d x) (?d c)"
      | (later) c' where "c' \<in> set cs"
          "m = \<lparr>mip_partition = c', mip_repertoire = partitioned c', mip_difference = ?d c'\<rparr>"
          "flt (?d c') (?d c)" "\<not> flt (?d c') EPSILON"
          "\<forall>x\<in>set cs. \<not> flt (?d x) (?d c')"
      by blast
    then show ?thesis
    proof cases
      case kept
      with True above show ?thesis
        by (auto simp: flt_irrefl)
    next
      case later
      from later(3) True have "flt (?d c') dmin"
        by (rule flt_trans)
      moreover from later(3) have "\<not> flt (?d c) (?d c')"
        by (rule flt_asym)
      ultimately show ?thesis
        using later by auto
    qed
  next
    case False
    with above Cons.prems
    have "snd (mip_loop partitioned distance_to cs mip dmin) = Some m"
      by (simp add: mip_loop_keep del: mip_loop.simps)
    from Cons.IH [OF this]
    consider (kept) "mip = Some m" "\<forall>x\<in>set cs. \<not> flt (?d x) dmin"
      | (later) c' where "c' \<in> set cs"
          "m = \<lparr>mip_partition = c', mip_repertoire = partitioned c', mip_difference = ?d c'\<rparr>"
          "flt (?d c') dmin" "\<not> flt (?d c') EPSILON"
          "\<forall>x\<in>set cs. \<not> flt (?d x) (?d c')"
      by blast
    then show ?thesis
    proof cases
      case kept
      with False show ?thesis by auto
    next
      case later
      have "\<not> flt (?d c) (?d c')"
        using False later(3) flt_trans by blast
      then show ?thesis
        using later by auto
    qed
  qed
qed

lemma mip_loop_first_minimal:
  assumes "\<forall>x\<in>set cs. \<exists>r. distance_to (partitioned x) = Fin r \<and> 1 / 10 ^ 10 \<le> r"
    and "\<exists>x\<in>set cs. flt (distance_to (partitioned x)) dmin"
  shows "\<exists>pre c post. cs = pre @ c # post \<and>
           snd (mip_loop partitioned distance_to cs mip dmin) =
             Some \<lparr>mip_partition = c, mip_repertoire = partitioned c,
                    mip_difference = distance_to (partitioned c)\<rparr> \<and>
           flt (distance_to (partitioned c)) dmin \<and>
           (\<forall>x\<in>set pre. flt (distance_to (partitioned c)) (distance_to (partitioned x))) \<and>
           (\<forall>x\<in>set post. \<not> flt (distance_to (partitioned x)) (distance_to (partitioned c)))"
  using assms
proof (induction cs arbitrary: mip dmin)
  case Nil
  then show ?case by simp
next
  case (Cons c cs)
  let ?d = "\<lambda>x. distance_to (partitioned x)"
  let ?mc = "\<lparr>mip_partition = c, mip_repertoire = partitioned c, mip_difference = ?d c\<rparr>"
  from Cons.prems(1) obtain rc where rc: "?d c = Fin rc" "1 / 10 ^ 10 \<le> rc"
    by auto
  then have above: "\<not> flt (?d c) EPSILON"
    by (simp add: EPSILON_def)
  have fin: "\<forall>x\<in>set cs. \<exists>r. ?d x = Fin r \<and> 1 / 10 ^ 10 \<le> r"
    using Cons.prems(1) by simp
  have above_all: "\<forall>x\<in>set cs. \<not> flt (?d x) EPSILON"
    using fin by (auto simp: EPSILON_def)
  show ?case
  proof (cases "flt (?d c) dmin")
    case True
    have step: "snd (mip_loop partitioned distance_to (c # cs) mip dmin) =
                snd (mip_loop partitioned distance_to cs (Some ?mc) (?d c))"
      using True above by (simp add: mip_loop_update del: mip_loop.simps)
    show ?thesis
    proof (cases "\<exists>x\<in>set cs. flt (?d x) (?d c)")
      case True
      from Cons.IH [OF fin True, of "Some ?mc"]
      obtain pre c' post where h: "cs = pre @ c' # post"
          "snd (mip_loop partitioned distance_to cs (Some ?mc) (?d c)) =
             Some \<lparr>mip_partition = c', mip_repertoire = partitioned c', mip_difference = ?d c'\<rparr>"
          "flt (?d c') (?d c)"
          "\<forall>x\<in>set pre. flt (?d c') (?d x)"
          "\<forall>x\<in>set post. \<not> flt (?d x) (?d c')"
        by blast
      have "flt (?d c') dmin"
        using h(3) \<open>flt (?d c) dmin\<close> by (rule flt_trans)
      with h step show ?thesis
        by (intro exI[of _ "c # pre"] exI[of _ c'] exI[of _ post]) simp
    next
      case False
      have "snd (mip_loop partitioned distance_to cs (Some ?mc) (?d c)) = Some ?mc"
        using above_all False by (intro mip_loop_unchanged) auto
      with step True False show ?thesis
        by (intro exI[of _ "[]"] exI[of _ c] exI[of _ cs]) simp
    qed
  next
    case False
    have step: "snd (mip_loop partitioned distance_to (c # cs) mip dmin) =
                snd (mip_loop partitioned distance_to cs mip dmin)"
      using False above by (simp add: mip_loop_keep del: mip_loop.simps)
    from Cons.prems(2) False have ex: "\<exists>x\<in>set cs. flt (?d x) dmin"
      by auto
    from Cons.IH [OF fin ex, of mip]
    obtain pre c' post where h: "cs = pre @ c' # post"
        "snd (mip_loop partitioned distance_to cs mip dmin) =
           Some \<lparr>mip_partition = c', mip_repertoire = partitioned c', mip_difference = ?d c'\<rparr>"
        "flt (?d c') dmin"
        "\<forall>x\<in>set pre. flt (?d c') (?d x)"
        "\<forall>x\<in>set post. \<not> flt (?d x) (?d c')"
      by blast
    from h(1) fin obtain r' where r': "?d c' = Fin r'"
      by auto
    have "flt (?d c') (?d c)"
      using False h(3) rc(1) r' by (cases dmin) auto
    with h step show ?thesis
      by (intro exI[of _ "c # pre"] exI[of _ c'] exI[of _ post]) simp
  qed
qed


text \<open>
  Whatever the enumeration of bipartitions is, as long as it splits the empty tuple
  into empty halves only: the empty mechanism with the empty purview has no
  candidate, and \<open>find_mip\<close> returns \<open>None\<close> for it.
\<close>

lemma find_mip_no_candidates:
  assumes "get_repertoire ops direction = Inr get"
    and "\<forall>halves\<in>set (bipartition_of ops []). halves = ([], [])"
  shows "find_mip ops direction [] [] = Inr ([], None)"
proof -
  have inner: "numerators_loop ([], []) ns = []"
    if "\<forall>n\<in>set ns. n = ([], [])" for ns :: "('a list \<times> 'a list) list"
    using that by (induction ns) (auto simp: valid_partition_def)
  have outer: "denominators_loop (bipartition_of ops) [] ds = []"
    if "\<forall>d\<in>set ds. d = ([], [])" for ds
    using that inner [OF assms(2)] by (induction ds) auto
  have "\<forall>d\<in>set (bipartition_of ops [] @ map (\<lambda>x. (snd x, fst x)) (bipartition_of ops [])).
          d = ([], [])"
    using assms(2) by auto
  then have "mip_bipartition (bipartition_of ops) [] [] = []"
    unfolding mip_bipartition_def Let_def by (rule outer)
  with assms(1) show ?thesis
    by (simp add: find_mip_def find_mip_with_def)
qed

text \<open>
  Claim C2, as the code has it.  For a valid direction (the choice of the repertoire
  method succeeds with \<open>get\<close>), writing the candidates for what \<open>mip_bipartition\<close>
  yields and the distance of a candidate for the EMD between the unpartitioned
  repertoire and the candidate's partitioned repertoire:
  \<^item> at the first candidate whose distance is below \<open>1e-10\<close>, \<open>find_mip\<close> returns
    \<open>None\<close>, and the candidates after it are not visited (the iterations printed are
    those up to it);
  \<^item> when there is a candidate and every distance is a finite number that is not
    below \<open>1e-10\<close>, it visits every candidate and returns the MIP of a candidate whose
    distance is strictly smaller than that of every candidate before it and not
    greater than that of any candidate after it: the first one of minimal distance;
  \<^item> whenever it returns a MIP, no candidate has a smaller distance;
  \<^item> when there is no candidate at all, it returns \<open>None\<close>.
\<close>

theorem find_mip_search:
  assumes "get_repertoire ops direction = Inr get"
  shows
    "(\<forall>pre c post.
        mip_bipartition (bipartition_of ops) mech purv = pre @ c # post \<and>
        (\<forall>x\<in>set pre. \<not> flt (difference_of ops get mech purv x) EPSILON) \<and>
        flt (difference_of ops get mech purv c) EPSILON \<longrightarrow>
        find_mip ops direction mech purv = Inr (pre @ [c], None)) \<and>
     (mip_bipartition (bipartition_of ops) mech purv \<noteq> [] \<and>
      (\<forall>x\<in>set (mip_bipartition (bipartition_of ops) mech purv).
         \<exists>r. difference_of ops get mech purv x = Fin r \<and> 1 / 10 ^ 10 \<le> r) \<longrightarrow>
      (\<exists>pre c post.
         mip_bipartition (bipartition_of ops) mech purv = pre @ c # post \<and>
         find_mip ops direction mech purv =
           Inr (mip_bipartition (bipartition_of ops) mech purv,
                Some \<lparr>mip_partition = c,
                       mip_repertoire = partitioned_repertoire_of get (rep_times ops) c,
                       mip_difference = difference_of ops get mech purv c\<rparr>) \<and>
         (\<forall>x\<in>set pre. flt (difference_of ops get mech purv c)
                            (difference_of ops get mech purv x)) \<and>
         (\<forall>x\<in>set post. \<not> flt (difference_of ops get mech purv x)
                               (difference_of ops get mech purv c)))) \<and>
     (\<forall>printed m.
        find_mip ops direction mech purv = Inr (printed, Some m) \<longrightarrow>
        (\<forall>x\<in>set (mip_bipartition (bipartition_of ops) mech purv).
           \<not> flt (difference_of ops get mech purv x) (mip_difference m))) \<and>
     (mip_bipartition (bipartition_of ops) mech purv = [] \<longrightarrow>
      find_mip ops direction mech purv = Inr ([], None))"
proof -
  let ?P = "partitioned_repertoire_of get (rep_times ops)"
  let ?D = "emd ops (get mech purv)"
  let ?cands = "mip_bipartition (bipartition_of ops) mech purv"
  have dd: "difference_of ops get mech purv = (\<lambda>x. ?D (?P x))"
    by (rule ext) (simp add: difference_of_def)
  have fm: "find_mip ops direction mech purv = Inr (mip_loop ?P ?D ?cands None PosInf)"
    using assms by (simp add: find_mip_def find_mip_with_def)
  have reducible: "find_mip ops direction mech purv = Inr (pre @ [c], None)"
    if "?cands = pre @ c # post" "\<forall>x\<in>set pre. \<not> flt (?D (?P x)) EPSILON"
       "flt (?D (?P c)) EPSILON" for pre c post
    using that mip_loop_short_circuit [of pre ?D ?P c post None PosInf]
    by (simp add: fm)
  have minimal: "\<exists>pre c post. ?cands = pre @ c # post \<and>
         find_mip ops direction mech purv =
           Inr (?cands, Some \<lparr>mip_partition = c, mip_repertoire = ?P c,
                               mip_difference = ?D (?P c)\<rparr>) \<and>
         (\<forall>x\<in>set pre. flt (?D (?P c)) (?D (?P x))) \<and>
         (\<forall>x\<in>set post. \<not> flt (?D (?P x)) (?D (?P c)))"
    if ne: "?cands \<noteq> []"
      and fin: "\<forall>x\<in>set ?cands. \<exists>r. ?D (?P x) = Fin r \<and> 1 / 10 ^ 10 \<le> r"
  proof -
    from ne obtain x where "x \<in> set ?cands"
      by (cases ?cands) auto
    with fin have ex: "\<exists>x\<in>set ?cands. flt (?D (?P x)) PosInf"
      by force
    have above: "\<forall>x\<in>set ?cands. \<not> flt (?D (?P x)) EPSILON"
      using fin by (auto simp: EPSILON_def)
    from mip_loop_first_minimal
           [where cs = ?cands and distance_to = ?D and partitioned = ?P and dmin = PosInf
              and mip = None, OF fin ex]
    obtain pre c post where h: "?cands = pre @ c # post"
        "snd (mip_loop ?P ?D ?cands None PosInf) =
           Some \<lparr>mip_partition = c, mip_repertoire = ?P c, mip_difference = ?D (?P c)\<rparr>"
        "\<forall>x\<in>set pre. flt (?D (?P c)) (?D (?P x))"
        "\<forall>x\<in>set post. \<not> flt (?D (?P x)) (?D (?P c))"
      by blast
    have "fst (mip_loop ?P ?D ?cands None PosInf) = ?cands"
      using above by (rule mip_loop_printed)
    with h(2) have "mip_loop ?P ?D ?cands None PosInf =
        (?cands, Some \<lparr>mip_partition = c, mip_repertoire = ?P c, mip_difference = ?D (?P c)\<rparr>)"
      by (metis prod.collapse)
    with h(1,3,4) show ?thesis
      unfolding fm by blast
  qed
  have least: "\<forall>x\<in>set ?cands. \<not> flt (?D (?P x)) (mip_difference m)"
    if "find_mip ops direction mech purv = Inr (printed, Some m)" for printed m
  proof -
    from that have "snd (mip_loop ?P ?D ?cands None PosInf) = Some m"
      by (simp add: fm)
    from mip_loop_result [OF this] show ?thesis
      by auto
  qed
  have none: "find_mip ops direction mech purv = Inr ([], None)" if "?cands = []"
    using that by (simp add: fm)
  show ?thesis
    unfolding dd using reducible minimal least none by blast
qed

text \<open>
  Claim C2 at the mechanism \<open>(0, 1)\<close> and the purview \<open>(0, 1)\<close>, which have two
  candidates.  Under \<open>ops_far\<close> the distances are 3 and 2: both candidates are visited
  and the second is the MIP.  Under \<open>ops_zero\<close> the first distance is 0: the result is
  \<open>None\<close> and the second candidate is not visited.
\<close>

theorem find_mip_search_witness:
  "get_repertoire ops_far ''past'' = Inr (cause_rep ops_far) \<and>
   find_mip ops_far ''past'' [0, 1] [0, 1] =
     Inr ([(\<lparr>part_mechanism = [], part_purview = [0, 1]\<rparr>,
            \<lparr>part_mechanism = [0, 1], part_purview = []\<rparr>),
           (\<lparr>part_mechanism = [0], part_purview = [1]\<rparr>,
            \<lparr>part_mechanism = [1], part_purview = [0]\<rparr>)],
          Some \<lparr>mip_partition = (\<lparr>part_mechanism = [0], part_purview = [1]\<rparr>,
                                 \<lparr>part_mechanism = [1], part_purview = [0]\<rparr>),
                 mip_repertoire = 1, mip_difference = Fin 2\<rparr>) \<and>
   get_repertoire ops_zero ''past'' = Inr (cause_rep ops_zero) \<and>
   find_mip ops_zero ''past'' [0, 1] [0, 1] =
     Inr ([(\<lparr>part_mechanism = [], part_purview = [0, 1]\<rparr>,
            \<lparr>part_mechanism = [0, 1], part_purview = []\<rparr>)], None)"
proof -
  have g1: "get_repertoire ops_far ''past'' = Inr (cause_rep ops_far)"
    and g0: "get_repertoire ops_zero ''past'' = Inr (cause_rep ops_zero)"
    by (simp_all add: get_repertoire_def)
  have cands1: "mip_bipartition (bipartition_of ops_far) [0, 1] [0, 1] =
      [(\<lparr>part_mechanism = [], part_purview = [0, 1]\<rparr>,
        \<lparr>part_mechanism = [0, 1], part_purview = []\<rparr>),
       (\<lparr>part_mechanism = [0], part_purview = [1]\<rparr>,
        \<lparr>part_mechanism = [1], part_purview = [0]\<rparr>)]"
    and cands0: "mip_bipartition (bipartition_of ops_zero) [0, 1] [0, 1] =
      [] @ (\<lparr>part_mechanism = [], part_purview = [0, 1]\<rparr>,
        \<lparr>part_mechanism = [0, 1], part_purview = []\<rparr>) #
       [(\<lparr>part_mechanism = [0], part_purview = [1]\<rparr>,
        \<lparr>part_mechanism = [1], part_purview = [0]\<rparr>)]"
    by (simp_all add: ops_far_def ops_zero_def mip_bipartition_def valid_partition_def)
  have d1: "difference_of ops_far (cause_rep ops_far) [0, 1] [0, 1]
              (\<lparr>part_mechanism = [], part_purview = [0, 1]\<rparr>,
               \<lparr>part_mechanism = [0, 1], part_purview = []\<rparr>) = Fin 3"
    and d2: "difference_of ops_far (cause_rep ops_far) [0, 1] [0, 1]
              (\<lparr>part_mechanism = [0], part_purview = [1]\<rparr>,
               \<lparr>part_mechanism = [1], part_purview = [0]\<rparr>) = Fin 2"
    and p2: "partitioned_repertoire_of (cause_rep ops_far) (rep_times ops_far)
              (\<lparr>part_mechanism = [0], part_purview = [1]\<rparr>,
               \<lparr>part_mechanism = [1], part_purview = [0]\<rparr>) = 1"
    and d0: "difference_of ops_zero (cause_rep ops_zero) [0, 1] [0, 1]
              (\<lparr>part_mechanism = [], part_purview = [0, 1]\<rparr>,
               \<lparr>part_mechanism = [0, 1], part_purview = []\<rparr>) = Fin 0"
    by (simp_all add: difference_of_def partitioned_repertoire_of_def ops_far_def ops_zero_def)
  note far = find_mip_search [OF g1, of "[0, 1]" "[0, 1]"]
  note zero = find_mip_search [OF g0, of "[0, 1]" "[0, 1]"]
  have "find_mip ops_zero ''past'' [0, 1] [0, 1] =
     Inr ([(\<lparr>part_mechanism = [], part_purview = [0, 1]\<rparr>,
            \<lparr>part_mechanism = [0, 1], part_purview = []\<rparr>)], None)"
    using zero [THEN conjunct1, rule_format,
        of "[]" "(\<lparr>part_mechanism = [], part_purview = [0, 1]\<rparr>,
                 \<lparr>part_mechanism = [0, 1], part_purview = []\<rparr>)"
           "[(\<lparr>part_mechanism = [0], part_purview = [1]\<rparr>,
              \<lparr>part_mechanism = [1], part_purview = [0]\<rparr>)]"]
      cands0 d0
    by (simp add: EPSILON_def)
  moreover
  from far obtain pre c post where h:
     "mip_bipartition (bipartition_of ops_far) [0, 1] [0, 1] = pre @ c # post"
     "find_mip ops_far ''past'' [0, 1] [0, 1] =
           Inr (mip_bipartition (bipartition_of ops_far) [0, 1] [0, 1],
                Some \<lparr>mip_partition = c,
                       mip_repertoire = partitioned_repertoire_of (cause_rep ops_far) (rep_times ops_far) c,
                       mip_difference = difference_of ops_far (cause_rep ops_far) [0, 1] [0, 1] c\<rparr>)"
     "\<forall>x\<in>set pre. flt (difference_of ops_far (cause_rep ops_far) [0, 1] [0, 1] c)
                            (difference_of ops_far (cause_rep ops_far) [0, 1] [0, 1] x)"
     "\<forall>x\<in>set post. \<not> flt (difference_of ops_far (cause_rep ops_far) [0, 1] [0, 1] x)
                               (difference_of ops_far (cause_rep ops_far) [0, 1] [0, 1] c)"
    using cands1 d1 d2 by auto
  have "c = (\<lparr>part_mechanism = [0], part_purview = [1]\<rparr>,
             \<lparr>part_mechanism = [1], part_purview = [0]\<rparr>)"
    using h(1,3,4) cands1 d1 d2 by (auto simp: Cons_eq_append_conv append_eq_Cons_conv)
  with h(2) have "find_mip ops_far ''past'' [0, 1] [0, 1] =
     Inr ([(\<lparr>part_mechanism = [], part_purview = [0, 1]\<rparr>,
            \<lparr>part_mechanism = [0, 1], part_purview = []\<rparr>),
           (\<lparr>part_mechanism = [0], part_purview = [1]\<rparr>,
            \<lparr>part_mechanism = [1], part_purview = [0]\<rparr>)],
          Some \<lparr>mip_partition = (\<lparr>part_mechanism = [0], part_purview = [1]\<rparr>,
                                 \<lparr>part_mechanism = [1], part_purview = [0]\<rparr>),
                 mip_repertoire = 1, mip_difference = Fin 2\<rparr>)"
    using cands1 d2 p2 by simp
  ultimately show ?thesis
    using g1 g0 by simp
qed


text \<open>
  Claim C2 as it is worded has two cases, a distance below \<open>1e-10\<close> and, otherwise,
  the candidate of minimal distance as the result.  For the empty mechanism and the
  empty purview there is no candidate: no distance is below \<open>1e-10\<close>, and the result is
  \<open>None\<close>, not a candidate.
\<close>

theorem find_mip_search_counterexample:
  "get_repertoire ops_far ''past'' = Inr (cause_rep ops_far) \<and>
   mip_bipartition (bipartition_of ops_far) [] [] = [] \<and>
   find_mip ops_far ''past'' [] [] = Inr ([], None)"
  by (simp add: get_repertoire_def find_mip_def find_mip_with_def mip_bipartition_def
      valid_partition_def ops_far_def)

section \<open>Verification: mip_bipartition\<close>

lemma numerators_loop_set:
  "set (numerators_loop d ns) =
     {(\<lparr>part_mechanism = fst n, part_purview = fst d\<rparr>,
       \<lparr>part_mechanism = snd n, part_purview = snd d\<rparr>) | n. n \<in> set ns \<and> valid_partition n d}"
  by (induction ns) auto

lemma denominators_loop_set:
  "set (denominators_loop bp mech ds) =
     {(\<lparr>part_mechanism = fst n, part_purview = fst d\<rparr>,
       \<lparr>part_mechanism = snd n, part_purview = snd d\<rparr>) | n d.
        d \<in> set ds \<and> n \<in> set (bp mech) \<and> valid_partition n d}"
  by (induction ds) (auto simp: numerators_loop_set)

text \<open>
  Claim C4, as the code has it.  \<open>mip_bipartition\<close> yields exactly the pairs of Parts
  obtained from a bipartition \<open>(n0, n1)\<close> of the mechanism and a bipartition of the
  purview in either orientation \<open>(d0, d1)\<close>, such that inside each Part the mechanism
  half and the purview half are disjoint (\<open>n0\<close> from \<open>d0\<close>, \<open>n1\<close> from \<open>d1\<close>) and no
  Part has both halves empty.  The disjointness the code tests is within a Part, not
  between the two Parts.
\<close>

theorem mip_bipartition_pairs:
  "(p0, p1) \<in> set (mip_bipartition bp mech purv) \<longleftrightarrow>
     (\<exists>n0 n1 d0 d1.
        (n0, n1) \<in> set (bp mech) \<and>
        ((d0, d1) \<in> set (bp purv) \<or> (d1, d0) \<in> set (bp purv)) \<and>
        set n0 \<inter> set d0 = {} \<and> set n1 \<inter> set d1 = {} \<and>
        \<not> (n0 = [] \<and> d0 = []) \<and> \<not> (n1 = [] \<and> d1 = []) \<and>
        p0 = \<lparr>part_mechanism = n0, part_purview = d0\<rparr> \<and>
        p1 = \<lparr>part_mechanism = n1, part_purview = d1\<rparr>)"
  (is "?L \<longleftrightarrow> ?R")
proof
  assume ?L
  then obtain n d where nd: "n \<in> set (bp mech)"
      "(fst d, snd d) \<in> set (bp purv) \<or> (snd d, fst d) \<in> set (bp purv)"
      "valid_partition n d"
      "p0 = \<lparr>part_mechanism = fst n, part_purview = fst d\<rparr>"
      "p1 = \<lparr>part_mechanism = snd n, part_purview = snd d\<rparr>"
    unfolding mip_bipartition_def Let_def denominators_loop_set by fastforce
  then show ?R
    unfolding valid_partition_def
    by (intro exI[of _ "fst n"] exI[of _ "snd n"] exI[of _ "fst d"] exI[of _ "snd d"]) simp
next
  assume ?R
  then obtain n0 n1 d0 d1 where h: "(n0, n1) \<in> set (bp mech)"
      "(d0, d1) \<in> set (bp purv) \<or> (d1, d0) \<in> set (bp purv)"
      "set n0 \<inter> set d0 = {}" "set n1 \<inter> set d1 = {}"
      "\<not> (n0 = [] \<and> d0 = [])" "\<not> (n1 = [] \<and> d1 = [])"
      "p0 = \<lparr>part_mechanism = n0, part_purview = d0\<rparr>"
      "p1 = \<lparr>part_mechanism = n1, part_purview = d1\<rparr>"
    by blast
  from h(2) have d: "(d0, d1) \<in> set (bp purv @ map (\<lambda>x. (snd x, fst x)) (bp purv))"
    by force
  from h(3,4,5,6) have v: "valid_partition (n0, n1) (d0, d1)"
    unfolding valid_partition_def by simp
  show ?L
    unfolding mip_bipartition_def Let_def denominators_loop_set
    using h(1,7,8) d v by force
qed

text \<open>
  Claim C4, at the mechanism \<open>(0, 1)\<close> and the purview \<open>(0, 1)\<close>: the pair
  \<open>(0 / 1, 1 / 0)\<close> is yielded.
\<close>

theorem mip_bipartition_pairs_witness:
  "(\<lparr>part_mechanism = [0::nat], part_purview = [1]\<rparr>,
    \<lparr>part_mechanism = [1], part_purview = [0]\<rparr>)
     \<in> set (mip_bipartition bipartition [0, 1] [0, 1])"
proof -
  have "([0::nat], [1::nat]) \<in> set (bipartition [0, 1])"
    by simp
  then show ?thesis
    using mip_bipartition_pairs [of "\<lparr>part_mechanism = [0::nat], part_purview = [1]\<rparr>"
        "\<lparr>part_mechanism = [1], part_purview = [0]\<rparr>" bipartition "[0, 1]" "[0, 1]"]
    by fastforce
qed

text \<open>
  Claim C4 as it is worded fails at the same input: \<open>(0 / 0, 1 / 1)\<close> passes the
  worded filter (the mechanism halves \<open>(0)\<close> and \<open>(1)\<close> are disjoint, so are the
  purview halves), and the code does not yield it, since node 0 is in both halves of
  the first Part.
\<close>

theorem mip_bipartition_counterexample:
  "set (mip_bipartition bipartition [0::nat, 1] [0, 1]) \<noteq>
   set (claimed_mip_bipartition bipartition [0, 1] [0, 1])"
proof -
  let ?x = "(\<lparr>part_mechanism = [0::nat], part_purview = [0]\<rparr>,
             \<lparr>part_mechanism = [1::nat], part_purview = [1]\<rparr>)"
  have "?x \<in> set (claimed_mip_bipartition bipartition [0, 1] [0, 1])"
    by (simp add: claimed_mip_bipartition_def claimed_valid_partition_def)
  moreover have "?x \<notin> set (mip_bipartition bipartition [0, 1] [0, 1])"
    by (simp add: mip_bipartition_def valid_partition_def)
  ultimately show ?thesis by metis
qed

section \<open>Verification: find_mice\<close>

lemma find_mip_difference:
  assumes "find_mip ops direction mech purv = Inr (printed, Some m)"
  shows "\<exists>r. mip_difference m = Fin r \<and> 1 / 10 ^ 10 \<le> r"
proof -
  from assms obtain get where "find_mip_with ops get mech purv = (printed, Some m)"
    by (auto simp: find_mip_def split: sum.splits)
  then have
    "snd (mip_loop (partitioned_repertoire_of get (rep_times ops)) (emd ops (get mech purv))
           (mip_bipartition (bipartition_of ops) mech purv) None PosInf) = Some m"
    by (simp add: find_mip_with_def)
  from mip_loop_result [OF this] show ?thesis
    by (auto dest: flt_bounded_finite)
qed

lemma find_mip_error:
  "find_mip ops direction mech purv = Inl e \<Longrightarrow> e = ValueError"
  by (auto simp: find_mip_def get_repertoire_def split: if_splits sum.splits)

lemma find_mip_valid:
  "direction = ''past'' \<or> direction = ''future'' \<Longrightarrow>
   \<exists>res. find_mip ops direction mech purv = Inr res"
  by (auto simp: find_mip_def get_repertoire_def)

lemma mice_loop_no_TypeError:
  assumes "\<And>p printed m. fm p = Inr (printed, Some m) \<Longrightarrow> \<exists>r. mip_difference m = Fin r"
    and "\<And>p. fm p \<noteq> Inl TypeError"
    and "maximal_purview = None \<longrightarrow> phi_max = NegInf"
  shows "mice_loop fm ps phi_max maximal_purview \<noteq> Inl TypeError"
  using assms(3)
proof (induction ps arbitrary: phi_max maximal_purview)
  case Nil
  then show ?case by simp
next
  case (Cons p ps)
  show ?case
  proof (cases "fm p")
    case (Inl e)
    with assms(2) [of p] show ?thesis by simp
  next
    case (Inr res)
    obtain printed result where res: "res = (printed, result)"
      by (cases res)
    show ?thesis
    proof (cases result)
      case None
      with Inr res Cons show ?thesis by simp
    next
      case (Some m)
      with Inr res assms(1) obtain r where r: "mip_difference m = Fin r"
        by blast
      have "fgt (Fin r) phi_max" if "maximal_purview = None"
        using that Cons.prems by (simp add: fgt_def)
      then show ?thesis
        using Inr res Some r Cons.IH Cons.prems
        by (auto simp: Let_def split: option.splits)
    qed
  qed
qed

lemma mice_loop_maximal:
  assumes fin: "\<And>p printed m. fm p = Inr (printed, Some m) \<Longrightarrow> \<exists>r. mip_difference m = Fin r"
    and tot: "\<And>p. \<exists>res. fm p = Inr res"
    and inv: "(mp = None \<and> phi_max = NegInf) \<or> (\<exists>q r. mp = Some q \<and> phi_max = Fin r)"
  shows "\<exists>mice. mice_loop fm ps phi_max mp = Inr mice \<and>
     ((mice_purview mice = mp \<and> mice_phi mice = phi_max) \<or>
      (\<exists>p\<in>set ps. \<exists>printed m. fm p = Inr (printed, Some m) \<and>
          mice_purview mice = Some p \<and> mice_phi mice = mip_difference m)) \<and>
     \<not> flt (mice_phi mice) phi_max \<and>
     (\<forall>q. mp = Some q \<longrightarrow> mice_at_least mice phi_max q) \<and>
     (\<forall>p\<in>set ps. \<forall>printed m. fm p = Inr (printed, Some m) \<longrightarrow>
         mice_at_least mice (mip_difference m) p)"
  using inv
proof (induction ps arbitrary: phi_max mp)
  case Nil
  then show ?case
    by (auto simp: mice_at_least_def flt_irrefl)
next
  case (Cons p ps)
  from tot [of p] obtain printed result where fp: "fm p = Inr (printed, result)"
    by (metis surj_pair)
  show ?case
  proof (cases result)
    case None
    from Cons.IH [OF Cons.prems] obtain mice where
      "mice_loop fm ps phi_max mp = Inr mice"
      "(mice_purview mice = mp \<and> mice_phi mice = phi_max) \<or>
       (\<exists>p\<in>set ps. \<exists>printed m. fm p = Inr (printed, Some m) \<and>
          mice_purview mice = Some p \<and> mice_phi mice = mip_difference m)"
      "\<not> flt (mice_phi mice) phi_max"
      "\<forall>q. mp = Some q \<longrightarrow> mice_at_least mice phi_max q"
      "\<forall>p\<in>set ps. \<forall>printed m. fm p = Inr (printed, Some m) \<longrightarrow>
         mice_at_least mice (mip_difference m) p"
      by blast
    with fp None show ?thesis
      by (intro exI[of _ mice]) auto
  next
    case (Some m)
    with fp fin obtain r where r: "mip_difference m = Fin r"
      by blast
    consider (greater) "fgt (Fin r) phi_max"
      | (longer) q where "\<not> fgt (Fin r) phi_max" "phi_max = Fin r" "mp = Some q"
          "length q < length p"
      | (shorter) q where "\<not> fgt (Fin r) phi_max" "phi_max = Fin r" "mp = Some q"
          "\<not> length q < length p"
      | (less) "\<not> fgt (Fin r) phi_max" "\<not> feq (Fin r) phi_max" "flt (Fin r) phi_max"
    proof -
      from Cons.prems consider "mp = None" "phi_max = NegInf"
        | q r' where "mp = Some q" "phi_max = Fin r'"
        by blast
      then show ?thesis
      proof cases
        case 1
        then show ?thesis using greater by (simp add: fgt_def)
      next
        case 2
        then show ?thesis
          using greater longer [of q] shorter [of q] less
          by (cases "r' < r"; cases "r = r'"; cases "length q < length p")
             (auto simp: fgt_def)
      qed
    qed
    then show ?thesis
    proof cases
      case greater
      have step: "mice_loop fm (p # ps) phi_max mp = mice_loop fm ps (Fin r) (Some p)"
        using fp Some r greater by simp
      have "(Some p = None \<and> Fin r = NegInf) \<or> (\<exists>q r'. Some p = Some q \<and> Fin r = Fin r')"
        by simp
      from Cons.IH [OF this] obtain mice where h:
        "mice_loop fm ps (Fin r) (Some p) = Inr mice"
        "(mice_purview mice = Some p \<and> mice_phi mice = Fin r) \<or>
         (\<exists>p\<in>set ps. \<exists>printed m. fm p = Inr (printed, Some m) \<and>
            mice_purview mice = Some p \<and> mice_phi mice = mip_difference m)"
        "\<not> flt (mice_phi mice) (Fin r)"
        "mice_at_least mice (Fin r) p"
        "\<forall>p\<in>set ps. \<forall>printed m. fm p = Inr (printed, Some m) \<longrightarrow>
           mice_at_least mice (mip_difference m) p"
        by blast
      from greater have lt: "flt phi_max (Fin r)"
        by (simp add: fgt_def)
      have nl: "\<not> flt (mice_phi mice) phi_max"
        using h(3) lt flt_trans by blast
      have ne: "mice_phi mice \<noteq> phi_max"
        using h(3) lt by auto
      have acc: "\<forall>q. mp = Some q \<longrightarrow> mice_at_least mice phi_max q"
        using nl ne by (simp add: mice_at_least_def)
      have origin: "(mice_purview mice = mp \<and> mice_phi mice = phi_max) \<or>
          (\<exists>p'\<in>set (p # ps). \<exists>printed m. fm p' = Inr (printed, Some m) \<and>
             mice_purview mice = Some p' \<and> mice_phi mice = mip_difference m)"
        using h(2) fp Some r by auto
      have cands: "\<forall>p'\<in>set (p # ps). \<forall>printed m. fm p' = Inr (printed, Some m) \<longrightarrow>
           mice_at_least mice (mip_difference m) p'"
        using h(4,5) fp Some r by auto
      show ?thesis
        using step h(1) origin nl acc cands by (intro exI[of _ mice]) simp
    next
      case longer
      have step: "mice_loop fm (p # ps) phi_max mp = mice_loop fm ps (Fin r) (Some p)"
        using fp Some r longer by simp
      have "(Some p = None \<and> Fin r = NegInf) \<or> (\<exists>q r'. Some p = Some q \<and> Fin r = Fin r')"
        by simp
      from Cons.IH [OF this] obtain mice where h:
        "mice_loop fm ps (Fin r) (Some p) = Inr mice"
        "(mice_purview mice = Some p \<and> mice_phi mice = Fin r) \<or>
         (\<exists>p\<in>set ps. \<exists>printed m. fm p = Inr (printed, Some m) \<and>
            mice_purview mice = Some p \<and> mice_phi mice = mip_difference m)"
        "\<not> flt (mice_phi mice) (Fin r)"
        "mice_at_least mice (Fin r) p"
        "\<forall>p\<in>set ps. \<forall>printed m. fm p = Inr (printed, Some m) \<longrightarrow>
           mice_at_least mice (mip_difference m) p"
        by blast
      have nl: "\<not> flt (mice_phi mice) phi_max"
        using h(3) longer(2) by simp
      have acc: "\<forall>q. mp = Some q \<longrightarrow> mice_at_least mice phi_max q"
        using h(4) longer(2,3,4) by (auto simp: mice_at_least_def)
      have origin: "(mice_purview mice = mp \<and> mice_phi mice = phi_max) \<or>
          (\<exists>p'\<in>set (p # ps). \<exists>printed m. fm p' = Inr (printed, Some m) \<and>
             mice_purview mice = Some p' \<and> mice_phi mice = mip_difference m)"
        using h(2) fp Some r by auto
      have cands: "\<forall>p'\<in>set (p # ps). \<forall>printed m. fm p' = Inr (printed, Some m) \<longrightarrow>
           mice_at_least mice (mip_difference m) p'"
        using h(4,5) fp Some r by auto
      show ?thesis
        using step h(1) origin nl acc cands by (intro exI[of _ mice]) simp
    next
      case shorter
      have step: "mice_loop fm (p # ps) phi_max mp = mice_loop fm ps phi_max mp"
        using fp Some r shorter by simp
      from Cons.IH [OF Cons.prems] obtain mice where h:
        "mice_loop fm ps phi_max mp = Inr mice"
        "(mice_purview mice = mp \<and> mice_phi mice = phi_max) \<or>
         (\<exists>p\<in>set ps. \<exists>printed m. fm p = Inr (printed, Some m) \<and>
            mice_purview mice = Some p \<and> mice_phi mice = mip_difference m)"
        "\<not> flt (mice_phi mice) phi_max"
        "\<forall>q. mp = Some q \<longrightarrow> mice_at_least mice phi_max q"
        "\<forall>p\<in>set ps. \<forall>printed m. fm p = Inr (printed, Some m) \<longrightarrow>
           mice_at_least mice (mip_difference m) p"
        by blast
      have "mice_at_least mice (Fin r) p"
        using h(3,4) shorter(2,3,4) by (auto simp: mice_at_least_def)
      then have cands: "\<forall>p'\<in>set (p # ps). \<forall>printed m. fm p' = Inr (printed, Some m) \<longrightarrow>
           mice_at_least mice (mip_difference m) p'"
        using h(5) fp Some r by auto
      have origin: "(mice_purview mice = mp \<and> mice_phi mice = phi_max) \<or>
          (\<exists>p'\<in>set (p # ps). \<exists>printed m. fm p' = Inr (printed, Some m) \<and>
             mice_purview mice = Some p' \<and> mice_phi mice = mip_difference m)"
        using h(2) by auto
      show ?thesis
        using step h(1,3,4) origin cands by (intro exI[of _ mice]) simp
    next
      case less
      have step: "mice_loop fm (p # ps) phi_max mp = mice_loop fm ps phi_max mp"
        using fp Some r less by simp
      from Cons.IH [OF Cons.prems] obtain mice where h:
        "mice_loop fm ps phi_max mp = Inr mice"
        "(mice_purview mice = mp \<and> mice_phi mice = phi_max) \<or>
         (\<exists>p\<in>set ps. \<exists>printed m. fm p = Inr (printed, Some m) \<and>
            mice_purview mice = Some p \<and> mice_phi mice = mip_difference m)"
        "\<not> flt (mice_phi mice) phi_max"
        "\<forall>q. mp = Some q \<longrightarrow> mice_at_least mice phi_max q"
        "\<forall>p\<in>set ps. \<forall>printed m. fm p = Inr (printed, Some m) \<longrightarrow>
           mice_at_least mice (mip_difference m) p"
        by blast
      have "\<not> flt (mice_phi mice) (Fin r)"
        using h(3) less(3) flt_trans by blast
      moreover have "mice_phi mice \<noteq> Fin r"
        using h(3) less(3) by auto
      ultimately have "mice_at_least mice (Fin r) p"
        by (simp add: mice_at_least_def)
      then have cands: "\<forall>p'\<in>set (p # ps). \<forall>printed m. fm p' = Inr (printed, Some m) \<longrightarrow>
           mice_at_least mice (mip_difference m) p'"
        using h(5) fp Some r by auto
      have origin: "(mice_purview mice = mp \<and> mice_phi mice = phi_max) \<or>
          (\<exists>p'\<in>set (p # ps). \<exists>printed m. fm p' = Inr (printed, Some m) \<and>
             mice_purview mice = Some p' \<and> mice_phi mice = mip_difference m)"
        using h(2) by auto
      show ?thesis
        using step h(1,3,4) origin cands by (intro exI[of _ mice]) simp
    qed
  qed
qed


lemma Nil_in_subseqs: "[] \<in> set (subseqs xs)"
  by (induction xs) (auto simp: Let_def)

lemma powerset_all_subsets:
  "set ` set (powerset xs) = Pow (set xs)" "[] \<in> set (powerset xs)"
  by (simp_all add: powerset_def subseqs_powset Nil_in_subseqs)

text \<open>
  Claim C6.  For a valid direction \<open>find_mice\<close> returns a MICE.  Its candidate
  purviews are the members of \<open>powerset\<close> of the subsystem's nodes: every subset of the
  nodes is among them, the empty one too.  If no candidate purview yields a MIP, the
  result is the purview \<open>None\<close> with phi \<open>-inf\<close>.  If one does, the result is a
  candidate purview that yields a MIP, with the difference of that MIP as its phi,
  and it is not beaten by any candidate purview that yields a MIP: its phi is not
  smaller, and against a purview of equal phi it does not have fewer nodes.
\<close>

theorem find_mice_maximal:
  assumes "direction = ''past'' \<or> direction = ''future''"
  shows "\<exists>mice. find_mice ops self direction mech = Inr mice \<and>
     set ` set (powerset (nodes self)) = Pow (set (nodes self)) \<and>
     [] \<in> set (powerset (nodes self)) \<and>
     ((\<forall>purv\<in>set (powerset (nodes self)).
          \<exists>printed. find_mip ops direction mech purv = Inr (printed, None)) \<longrightarrow>
      mice = \<lparr>mice_purview = None, mice_phi = NegInf\<rparr>) \<and>
     ((\<exists>purv\<in>set (powerset (nodes self)).
          \<exists>printed m. find_mip ops direction mech purv = Inr (printed, Some m)) \<longrightarrow>
      (\<exists>purv\<in>set (powerset (nodes self)).
          \<exists>printed m. find_mip ops direction mech purv = Inr (printed, Some m) \<and>
             mice = \<lparr>mice_purview = Some purv, mice_phi = mip_difference m\<rparr>)) \<and>
     (\<forall>purv\<in>set (powerset (nodes self)).
        \<forall>printed m. find_mip ops direction mech purv = Inr (printed, Some m) \<longrightarrow>
           mice_at_least mice (mip_difference m) purv)"
proof -
  let ?fm = "find_mip ops direction mech"
  let ?ps = "powerset (nodes self)"
  have fm: "find_mice ops self direction mech = mice_loop ?fm ?ps NegInf None"
    using assms
    by (auto simp: find_mice_def mip_past_def [abs_def] mip_future_def [abs_def])
  have fin: "\<exists>r. mip_difference m = Fin r" if "?fm p = Inr (printed, Some m)" for p printed m
    using find_mip_difference [OF that] by blast
  have tot: "\<exists>res. ?fm p = Inr res" for p
    using assms by (rule find_mip_valid)
  have "\<exists>mice. mice_loop ?fm ?ps NegInf None = Inr mice \<and>
     ((mice_purview mice = None \<and> mice_phi mice = NegInf) \<or>
      (\<exists>p\<in>set ?ps. \<exists>printed m. ?fm p = Inr (printed, Some m) \<and>
          mice_purview mice = Some p \<and> mice_phi mice = mip_difference m)) \<and>
     \<not> flt (mice_phi mice) NegInf \<and>
     (\<forall>q. None = Some q \<longrightarrow> mice_at_least mice NegInf q) \<and>
     (\<forall>p\<in>set ?ps. \<forall>printed m. ?fm p = Inr (printed, Some m) \<longrightarrow>
         mice_at_least mice (mip_difference m) p)"
  proof (rule mice_loop_maximal)
    show "\<exists>r. mip_difference m = Fin r" if "?fm p = Inr (printed, Some m)" for p printed m
      using that by (rule fin)
    show "\<exists>res. ?fm p = Inr res" for p
      by (rule tot)
    show "(None = None \<and> NegInf = NegInf) \<or>
          (\<exists>q r. (None :: 'a list option) = Some q \<and> NegInf = Fin r)"
      by simp
  qed
  then obtain mice where h:
    "mice_loop ?fm ?ps NegInf None = Inr mice"
    "(mice_purview mice = None \<and> mice_phi mice = NegInf) \<or>
     (\<exists>p\<in>set ?ps. \<exists>printed m. ?fm p = Inr (printed, Some m) \<and>
         mice_purview mice = Some p \<and> mice_phi mice = mip_difference m)"
    "\<forall>p\<in>set ?ps. \<forall>printed m. ?fm p = Inr (printed, Some m) \<longrightarrow>
         mice_at_least mice (mip_difference m) p"
    by blast
  have origin: "mice = \<lparr>mice_purview = None, mice_phi = NegInf\<rparr> \<or>
     (\<exists>p\<in>set ?ps. \<exists>printed m. ?fm p = Inr (printed, Some m) \<and>
         mice = \<lparr>mice_purview = Some p, mice_phi = mip_difference m\<rparr>)"
    using h(2)
  proof (elim disjE conjE bexE exE)
    assume "mice_purview mice = None" "mice_phi mice = NegInf"
    then have "mice = \<lparr>mice_purview = None, mice_phi = NegInf\<rparr>"
      by (cases mice) simp
    then show ?thesis ..
  next
    fix p printed m
    assume p: "p \<in> set ?ps" "?fm p = Inr (printed, Some m)"
      and "mice_purview mice = Some p" "mice_phi mice = mip_difference m"
    then have "mice = \<lparr>mice_purview = Some p, mice_phi = mip_difference m\<rparr>"
      by (cases mice) simp
    with p show ?thesis
      by blast
  qed
  have none: "mice = \<lparr>mice_purview = None, mice_phi = NegInf\<rparr>"
    if "\<forall>purv\<in>set ?ps. \<exists>printed. ?fm purv = Inr (printed, None)"
    using origin that by auto
  have some: "\<exists>purv\<in>set ?ps. \<exists>printed m. ?fm purv = Inr (printed, Some m) \<and>
             mice = \<lparr>mice_purview = Some purv, mice_phi = mip_difference m\<rparr>"
    if "\<exists>purv\<in>set ?ps. \<exists>printed m. ?fm purv = Inr (printed, Some m)"
  proof -
    from that obtain purv printed m where pm: "purv \<in> set ?ps" "?fm purv = Inr (printed, Some m)"
      by blast
    with h(3) have al: "mice_at_least mice (mip_difference m) purv"
      by blast
    from fin [OF pm(2)] obtain r where "mip_difference m = Fin r"
      by blast
    with al have "mice_phi mice \<noteq> NegInf"
      by (auto simp: mice_at_least_def)
    with origin show ?thesis
      by auto
  qed
  show ?thesis
  proof (intro exI[of _ mice] conjI impI)
    show "find_mice ops self direction mech = Inr mice"
      using fm h(1) by simp
    show "set ` set ?ps = Pow (set (nodes self))" "[] \<in> set ?ps"
      by (rule powerset_all_subsets)+
    show "mice = \<lparr>mice_purview = None, mice_phi = NegInf\<rparr>"
      if "\<forall>purv\<in>set ?ps. \<exists>printed. ?fm purv = Inr (printed, None)"
      using that by (rule none)
    show "\<exists>purv\<in>set ?ps. \<exists>printed m. ?fm purv = Inr (printed, Some m) \<and>
             mice = \<lparr>mice_purview = Some purv, mice_phi = mip_difference m\<rparr>"
      if "\<exists>purv\<in>set ?ps. \<exists>printed m. ?fm purv = Inr (printed, Some m)"
      using that by (rule some)
    show "\<forall>purv\<in>set ?ps. \<forall>printed m. ?fm purv = Inr (printed, Some m) \<longrightarrow>
           mice_at_least mice (mip_difference m) purv"
      by (rule h(3))
  qed
qed


text \<open>
  Claim C6 on the subsystem of two nodes with the mechanism \<open>(0, 1)\<close>.  Under
  \<open>ops_far\<close> every purview yields a MIP of difference 2 and the largest purview is
  returned; under \<open>ops_zero\<close> no purview yields a MIP.
\<close>

theorem find_mice_maximal_witness:
  "[0, 1] \<in> set (powerset (nodes two_nodes)) \<and>
   find_mice ops_far two_nodes ''past'' [0, 1] =
     Inr \<lparr>mice_purview = Some [0, 1], mice_phi = Fin 2\<rparr> \<and>
   find_mice ops_zero two_nodes ''future'' [0, 1] =
     Inr \<lparr>mice_purview = None, mice_phi = NegInf\<rparr>"
proof -
  have past: "''past'' = ''past'' \<or> ''past'' = ''future''"
    and future: "''future'' = ''past'' \<or> ''future'' = ''future''"
    by simp_all
  from find_mice_maximal [OF past, of ops_far two_nodes "[0, 1]"]
  obtain m1 where m1: "find_mice ops_far two_nodes ''past'' [0, 1] = Inr m1"
    by blast
  from find_mice_maximal [OF future, of ops_zero two_nodes "[0, 1]"]
  obtain m0 where m0: "find_mice ops_zero two_nodes ''future'' [0, 1] = Inr m0"
    by blast
  have "[0, 1] \<in> set (powerset (nodes two_nodes))"
    by (simp add: powerset_def two_nodes_def init_subsystem_def)
  moreover have "find_mice ops_far two_nodes ''past'' [0, 1] =
      Inr \<lparr>mice_purview = Some [0, 1], mice_phi = Fin 2\<rparr>"
    by (simp add: find_mice_def mip_past_def find_mip_def get_repertoire_def
        find_mip_with_def mip_bipartition_def valid_partition_def partitioned_repertoire_of_def
        powerset_def two_nodes_def init_subsystem_def ops_far_def EPSILON_def fgt_def Let_def)
  moreover have "find_mice ops_zero two_nodes ''future'' [0, 1] =
      Inr \<lparr>mice_purview = None, mice_phi = NegInf\<rparr>"
    by (simp add: find_mice_def mip_future_def find_mip_def get_repertoire_def
        find_mip_with_def mip_bipartition_def valid_partition_def partitioned_repertoire_of_def
        powerset_def two_nodes_def init_subsystem_def ops_far_def ops_zero_def EPSILON_def
        fgt_def Let_def)
  ultimately show ?thesis
    using m1 m0 by simp
qed

text \<open>
  Claim C10.  Every MIP that \<open>find_mip\<close> returns has a finite difference of at least
  \<open>1e-10\<close>, which is greater than \<open>-inf\<close>; and \<open>find_mice\<close> never raises the TypeError
  of \<open>len(None)\<close>, whatever the direction, the mechanism, the subsystem, the
  repertoire methods and the distance are (a NaN or infinite distance included).
\<close>

theorem find_mice_never_len_of_None:
  "(\<forall>purv printed m.
      find_mip ops direction mech purv = Inr (printed, Some m) \<longrightarrow>
      (\<exists>r. mip_difference m = Fin r \<and> 1 / 10 ^ 10 \<le> r) \<and>
      fgt (mip_difference m) NegInf) \<and>
   find_mice ops self direction mech \<noteq> Inl TypeError"
proof -
  have a: "(\<exists>r. mip_difference m = Fin r \<and> 1 / 10 ^ 10 \<le> r) \<and> fgt (mip_difference m) NegInf"
    if "find_mip ops direction mech purv = Inr (printed, Some m)" for purv printed m
    using find_mip_difference [OF that] by (auto simp: fgt_def)
  have b: "mice_loop (find_mip ops d mech) (powerset (nodes self)) NegInf None \<noteq> Inl TypeError"
    for d
  proof (rule mice_loop_no_TypeError)
    show "\<exists>r. mip_difference m = Fin r"
      if "find_mip ops d mech p = Inr (printed, Some m)" for p printed m
      using find_mip_difference [OF that] by blast
    show "find_mip ops d mech p \<noteq> Inl TypeError" for p
      using find_mip_error [of ops d mech p] by auto
    show "None = None \<longrightarrow> NegInf = NegInf" by simp
  qed
  have "find_mice ops self direction mech \<noteq> Inl TypeError"
    using b [of "''past''"] b [of "''future''"]
    by (simp add: find_mice_def mip_past_def [abs_def] mip_future_def [abs_def])
  with a show ?thesis by blast
qed


text \<open>
  Claim C10 on the subsystem of two nodes with the mechanism \<open>(0)\<close> in the direction
  \<open>future\<close>: the purview \<open>(0, 1)\<close> yields a MIP of difference 2, and \<open>find_mice\<close>
  returns a MICE.
\<close>

theorem find_mice_never_len_of_None_witness:
  "find_mip ops_far ''future'' [0] [0, 1] =
     Inr ([(\<lparr>part_mechanism = [], part_purview = [0]\<rparr>,
            \<lparr>part_mechanism = [0], part_purview = [1]\<rparr>),
           (\<lparr>part_mechanism = [], part_purview = [0, 1]\<rparr>,
            \<lparr>part_mechanism = [0], part_purview = []\<rparr>)],
          Some \<lparr>mip_partition = (\<lparr>part_mechanism = [], part_purview = [0]\<rparr>,
                                 \<lparr>part_mechanism = [0], part_purview = [1]\<rparr>),
                 mip_repertoire = 1, mip_difference = Fin 2\<rparr>) \<and>
   1 / 10 ^ 10 \<le> (2 :: real) \<and> fgt (Fin 2) NegInf \<and>
   find_mice ops_far two_nodes ''future'' [0] =
     Inr \<lparr>mice_purview = Some [0, 1], mice_phi = Fin 2\<rparr> \<and>
   find_mice ops_far two_nodes ''future'' [0] \<noteq> Inl TypeError"
proof -
  note t = find_mice_never_len_of_None [of ops_far "''future''" "[0]" two_nodes]
  have "find_mip ops_far ''future'' [0] [0, 1] =
     Inr ([(\<lparr>part_mechanism = [], part_purview = [0]\<rparr>,
            \<lparr>part_mechanism = [0], part_purview = [1]\<rparr>),
           (\<lparr>part_mechanism = [], part_purview = [0, 1]\<rparr>,
            \<lparr>part_mechanism = [0], part_purview = []\<rparr>)],
          Some \<lparr>mip_partition = (\<lparr>part_mechanism = [], part_purview = [0]\<rparr>,
                                 \<lparr>part_mechanism = [0], part_purview = [1]\<rparr>),
                 mip_repertoire = 1, mip_difference = Fin 2\<rparr>)"
    by (simp add: find_mip_def get_repertoire_def
        find_mip_with_def mip_bipartition_def valid_partition_def partitioned_repertoire_of_def
        ops_far_def EPSILON_def Let_def)
  moreover have "find_mice ops_far two_nodes ''future'' [0] =
     Inr \<lparr>mice_purview = Some [0, 1], mice_phi = Fin 2\<rparr>"
    by (simp add: find_mice_def mip_future_def find_mip_def get_repertoire_def
        find_mip_with_def mip_bipartition_def valid_partition_def partitioned_repertoire_of_def
        powerset_def two_nodes_def init_subsystem_def ops_far_def EPSILON_def fgt_def Let_def)
  moreover from t have "find_mice ops_far two_nodes ''future'' [0] \<noteq> Inl TypeError"
    by (rule conjunct2)
  ultimately show ?thesis
    by (simp add: fgt_def)
qed

section \<open>Verification: the Subsystem class\<close>

lemma count_list_distinct:
  "distinct xs \<Longrightarrow> count_list xs x = (if x \<in> set xs then 1 else 0)"
  by (induction xs) auto

lemma exact_cover_iff:
  assumes "distinct ns"
  shows "(length ns = length xs \<and> set ns = set xs) \<longleftrightarrow>
         ((\<forall>n\<in>set ns. count_list xs n = 1) \<and> set xs \<subseteq> set ns)"
proof
  assume h: "length ns = length xs \<and> set ns = set xs"
  with assms have "card (set xs) = length xs"
    by (metis distinct_card)
  then have "distinct xs"
    by (rule card_distinct)
  with h show "(\<forall>n\<in>set ns. count_list xs n = 1) \<and> set xs \<subseteq> set ns"
    by (simp add: count_list_distinct)
next
  assume h: "(\<forall>n\<in>set ns. count_list xs n = 1) \<and> set xs \<subseteq> set ns"
  have sub: "set ns \<subseteq> set xs"
  proof
    fix n assume "n \<in> set ns"
    with h have "count_list xs n = 1" by blast
    then show "n \<in> set xs"
      by (metis count_list_0_iff zero_neq_one)
  qed
  with h have eq: "set ns = set xs" by blast
  have "length xs = sum (count_list xs) (set xs)"
    by (simp add: sum_count_set)
  also have "\<dots> = sum (\<lambda>n. 1) (set xs)"
    using h eq by (intro sum.cong) auto
  also have "\<dots> = card (set ns)"
    using eq by simp
  also have "\<dots> = length ns"
    using assms by (rule distinct_card)
  finally show "length ns = length xs \<and> set ns = set xs"
    using eq by simp
qed

text \<open>
  Claim C9.  For a subsystem whose nodes are duplicate-free (the data model's
  invariant), \<open>cut\<close> raises ValueError exactly when the concatenation of the two
  arguments, each coerced to a tuple, is not an exact cover of the subsystem's nodes:
  some node of the subsystem does not occur in it exactly once, or something else
  occurs in it.  For every subsystem: when \<open>cut\<close> raises, the instance is unchanged,
  its cut included; when it does not, it raises nothing else and the cut of the
  instance is the pair of the two tuples.
\<close>

theorem cut_raises_iff:
  "(distinct (nodes self) \<longrightarrow>
      (fst (cut self severed intact) = Some ValueError \<longleftrightarrow>
         \<not> ((\<forall>n\<in>set (nodes self).
                count_list (as_tuple severed @ as_tuple intact) n = 1) \<and>
            set (as_tuple severed @ as_tuple intact) \<subseteq> set (nodes self)))) \<and>
   (fst (cut self severed intact) = Some ValueError \<longrightarrow>
      snd (cut self severed intact) = self) \<and>
   (fst (cut self severed intact) \<noteq> Some ValueError \<longrightarrow>
      fst (cut self severed intact) = None \<and>
      snd (cut self severed intact) =
        self\<lparr>cut_attr := (as_tuple severed, as_tuple intact)\<rparr> \<and>
      cut_attr (snd (cut self severed intact)) = (as_tuple severed, as_tuple intact))"
proof (intro conjI impI)
  assume "distinct (nodes self)"
  from exact_cover_iff [OF this, of "as_tuple severed @ as_tuple intact"]
  show "fst (cut self severed intact) = Some ValueError \<longleftrightarrow>
         \<not> ((\<forall>n\<in>set (nodes self).
                count_list (as_tuple severed @ as_tuple intact) n = 1) \<and>
            set (as_tuple severed @ as_tuple intact) \<subseteq> set (nodes self))"
    by (auto simp: cut_def Let_def)
next
  assume "fst (cut self severed intact) = Some ValueError"
  then show "snd (cut self severed intact) = self"
    by (auto simp: cut_def Let_def split: if_splits)
next
  assume h: "fst (cut self severed intact) \<noteq> Some ValueError"
  then show "fst (cut self severed intact) = None"
    by (auto simp: cut_def Let_def split: if_splits)
  from h show "snd (cut self severed intact) =
        self\<lparr>cut_attr := (as_tuple severed, as_tuple intact)\<rparr>"
    by (auto simp: cut_def Let_def split: if_splits)
  from h show "cut_attr (snd (cut self severed intact)) = (as_tuple severed, as_tuple intact)"
    by (auto simp: cut_def Let_def split: if_splits)
qed

text \<open>
  Claim C9 on the subsystem of two nodes: the cut (0 | 1), given as two single nodes,
  is applied; a cut that names node 1 twice and a cut that leaves node 1 out raise and
  leave the initial cut in place.
\<close>

theorem cut_raises_iff_witness:
  "distinct (nodes two_nodes) \<and>
   cut two_nodes (Single 0) (Single 1) =
     (None, two_nodes\<lparr>cut_attr := ([0], [1])\<rparr>) \<and>
   cut two_nodes (Tuple [0, 1]) (Single 1) = (Some ValueError, two_nodes) \<and>
   cut two_nodes (Tuple [0]) (Tuple []) = (Some ValueError, two_nodes) \<and>
   cut_attr two_nodes = ([], [0, 1])"
proof -
  have d: "distinct (nodes two_nodes)"
    by (simp add: two_nodes_def init_subsystem_def)
  note t = cut_raises_iff [of two_nodes]
  have "cut two_nodes (Single 0) (Single 1) = (None, two_nodes\<lparr>cut_attr := ([0], [1])\<rparr>)"
    using t [of "Single 0" "Single 1"]
    by (simp add: two_nodes_def init_subsystem_def prod_eq_iff)
  moreover have "cut two_nodes (Tuple [0, 1]) (Single 1) = (Some ValueError, two_nodes)"
    using t [of "Tuple [0, 1]" "Single 1"]
    by (simp add: two_nodes_def init_subsystem_def prod_eq_iff)
  moreover have "cut two_nodes (Tuple [0]) (Tuple []) = (Some ValueError, two_nodes)"
    using t [of "Tuple [0]" "Tuple []"]
    by (simp add: two_nodes_def init_subsystem_def prod_eq_iff)
  moreover have "cut_attr two_nodes = ([], [0, 1])"
    by (simp add: two_nodes_def init_subsystem_def)
  ultimately show ?thesis
    using d by simp
qed

text \<open>
  Claim C8.  Two subsystems with the same set of nodes, the same current and past
  state and the same network are equal under \<open>__eq__\<close> and have the same hash,
  whatever their cuts and whatever else the two instances carry; the key under which
  \<open>big_mip\<close> stores and looks up its result is that hash, so a call on the second
  subsystem after a call on the first returns the result stored by the first.
\<close>

theorem subsystem_identity:
  fixes s1 s2 :: "('n, 'net, 'x) subsystem_scheme"
  assumes "set (nodes s1) = set (nodes s2)"
    and "current_state s1 = current_state s2"
    and "past_state s1 = past_state s2"
    and "network s1 = network s2"
  shows "subsystem_eq s1 s2 \<and>
         subsystem_hash py_hash tostring s1 = subsystem_hash py_hash tostring s2 \<and>
         fst (big_mip py_hash tostring impl
                (snd (big_mip py_hash tostring impl store s1)) s2) =
           fst (big_mip py_hash tostring impl store s1)"
  using assms
  by (auto simp: subsystem_eq_def subsystem_hash_def big_mip_def memory_cache_def
      split: option.splits)

text \<open>
  Claim C8 on the subsystem of two nodes and a copy of it with the nodes in the other
  order and the cut (0 | 1): both hash to 12, and \<open>big_mip\<close> on the copy returns the
  result 0 stored for the original, where its body would give 1.
\<close>

theorem subsystem_identity_witness:
  "subsystem_eq two_nodes (two_nodes\<lparr>nodes := [1, 0], cut_attr := ([0], [1])\<rparr>) \<and>
   subsystem_hash example_hash example_tostring two_nodes = 12 \<and>
   subsystem_hash example_hash example_tostring
     (two_nodes\<lparr>nodes := [1, 0], cut_attr := ([0], [1])\<rparr>) = 12 \<and>
   example_impl 12 two_nodes = 0 \<and>
   example_impl 12 (two_nodes\<lparr>nodes := [1, 0], cut_attr := ([0], [1])\<rparr>) = 1 \<and>
   fst (big_mip example_hash example_tostring example_impl
          (snd (big_mip example_hash example_tostring example_impl Map.empty two_nodes))
          (two_nodes\<lparr>nodes := [1, 0], cut_attr := ([0], [1])\<rparr>)) = 0"
proof -
  let ?s2 = "two_nodes\<lparr>nodes := [1, 0], cut_attr := ([0], [1])\<rparr>"
  have a: "set (nodes two_nodes) = set (nodes ?s2)"
    "current_state two_nodes = current_state ?s2"
    "past_state two_nodes = past_state ?s2"
    "network two_nodes = network ?s2"
    by (auto simp: two_nodes_def init_subsystem_def)
  note t = subsystem_identity [OF a, of example_hash example_tostring example_impl Map.empty]
  have h: "subsystem_hash example_hash example_tostring two_nodes = 12"
    by (simp add: subsystem_hash_def example_hash_def example_tostring_def two_nodes_def
        init_subsystem_def)
  have "fst (big_mip example_hash example_tostring example_impl Map.empty two_nodes) = 0"
    by (simp add: big_mip_def memory_cache_def example_impl_def two_nodes_def init_subsystem_def)
  with t h show ?thesis
    by (simp add: example_impl_def two_nodes_def init_subsystem_def)
qed

section \<open>Verification: the distance between constellations\<close>

text \<open>
  When the first constellation is at least as heavy as the second, the residual goes
  to the null entry of the second vector with its sign, and the two vectors have
  equal sums (the null concept carries no phi of its own in the second
  constellation).
\<close>

lemma phi_distributions_first_heavier:
  assumes "null_concept \<notin> set C2 \<or> concept_phi null_concept = 0"
    and "sum_list (map (\<lambda>c. if c \<in> set C2 then concept_phi c else 0)
                    (all_concepts_of null_concept C1 C2 unique_C1 unique_C2))
         \<le> sum_list (map (\<lambda>c. if c \<in> set C1 then concept_phi c else 0)
                    (all_concepts_of null_concept C1 C2 unique_C1 unique_C2))"
  shows "sum_list (fst (phi_distributions null_concept C1 C2 unique_C1 unique_C2)) =
         sum_list (snd (phi_distributions null_concept C1 C2 unique_C1 unique_C2))"
proof -
  obtain front where all: "all_concepts_of null_concept C1 C2 unique_C1 unique_C2 =
      front @ [null_concept]"
    by (simp add: all_concepts_of_def)
  let ?f1 = "\<lambda>c. if c \<in> set C1 then concept_phi c else 0"
  let ?f2 = "\<lambda>c. if c \<in> set C2 then concept_phi c else 0"
  have last0: "?f2 null_concept = 0"
    using assms(1) by auto
  have upd: "(map ?f2 (front @ [null_concept]))[length (map ?f2 (front @ [null_concept])) - 1 := v]
      = map ?f2 front @ [v]" for v
    by (simp add: list_update_append)
  show ?thesis
    using assms(2) last0 unfolding phi_distributions_def Let_def all upd
    by (auto simp: list_update_append)
qed

text \<open>
  Claim C1 says that the two phi distributions of the EMD path have equal sums after
  the residual has been assigned.  When the first constellation is the lighter one,
  the code writes the residual, a negative number, into the null entry of the first
  vector: for \<open>C1 = (a)\<close> with phi 1 and \<open>C2 = (b)\<close> with phi 2, each with a concept
  the other lacks, the vectors are \<open>(1, 0, -1)\<close> and \<open>(0, 2, 0)\<close>, of sums 0 and 2.
\<close>

theorem emd_mass_not_conserved:
  "filter (\<lambda>c. c \<notin> set [concept_b]) [concept_a] = [concept_a] \<and>
   filter (\<lambda>c. c \<notin> set [concept_a]) [concept_b] = [concept_b] \<and>
   phi_distributions concept_null [concept_a] [concept_b] [concept_a] [concept_b] =
     ([1, 0, - 1], [0, 2, 0]) \<and>
   sum_list (fst (phi_distributions concept_null [concept_a] [concept_b]
                    [concept_a] [concept_b])) = 0 \<and>
   sum_list (snd (phi_distributions concept_null [concept_a] [concept_b]
                    [concept_a] [concept_b])) = 2"
  by (simp add: phi_distributions_def all_concepts_of_def concept_a_def concept_b_def
      concept_null_def)

text \<open>
  The cheap path is symmetric on constellations without duplicates.
\<close>

lemma filter_not_mem_Nil_iff: "filter (\<lambda>c. c \<notin> set ys) xs = [] \<longleftrightarrow> set xs \<subseteq> set ys"
  by (auto simp: filter_empty_conv)

lemma constellation_distance_simple_symmetric:
  assumes "distinct C1" "distinct C2"
    and "filter (\<lambda>c. c \<notin> set C2) C1 = [] \<or> filter (\<lambda>c. c \<notin> set C1) C2 = []"
  shows "constellation_distance emd3 cd null_concept C1 C2 =
         constellation_distance emd3 cd null_concept C2 C1"
proof -
  have sub: "constellation_distance_simple cd null_concept A B =
             constellation_distance_simple cd null_concept B A"
    if "distinct A" "distinct B" "set A \<subseteq> set B" for A B :: "('a, 'b) concept list"
  proof -
    from that have le: "length A \<le> length B"
      by (metis card_mono distinct_card List.finite_set)
    show ?thesis
    proof (cases "length A < length B")
      case True
      then show ?thesis
        by (simp add: constellation_distance_simple_def)
    next
      case False
      with le have eq: "length A = length B" by simp
      with that have "set A = set B"
        by (metis card_subset_eq distinct_card List.finite_set)
      then have "filter (\<lambda>c. c \<notin> set B) A = []" "filter (\<lambda>c. c \<notin> set A) B = []"
        by (simp_all add: filter_empty_conv)
      with eq show ?thesis
        by (simp add: constellation_distance_simple_def)
    qed
  qed
  from assms(3) have "set C1 \<subseteq> set C2 \<or> set C2 \<subseteq> set C1"
    by (simp add: filter_not_mem_Nil_iff)
  then show ?thesis
    using sub [OF assms(1,2)] sub [OF assms(2,1)] assms(3)
    by (auto simp: constellation_distance_def Let_def)
qed

text \<open>
  Claim C5 says that \<open>constellation_distance\<close> is symmetric.  For \<open>(a)\<close> and \<open>(b)\<close> as
  above, the two orders of the arguments reach the EMD with different pairs of
  vectors: \<open>(1, 0, -1)\<close> against \<open>(0, 2, 0)\<close> in one order, \<open>(2, 0, 0)\<close> against
  \<open>(0, 1, 1)\<close> in the other.  Only the second pair is a pair of distributions of
  equal mass.
\<close>

theorem constellation_distance_orders:
  "constellation_distance emd3 cd concept_null [concept_a] [concept_b] =
     emd3 [1, 0, - 1] [0, 2, 0]
       [[cd concept_a concept_a, cd concept_b concept_a, cd concept_null concept_a],
        [cd concept_a concept_b, cd concept_b concept_b, cd concept_null concept_b],
        [cd concept_a concept_null, cd concept_b concept_null, cd concept_null concept_null]] \<and>
   constellation_distance emd3 cd concept_null [concept_b] [concept_a] =
     emd3 [2, 0, 0] [0, 1, 1]
       [[cd concept_b concept_b, cd concept_a concept_b, cd concept_null concept_b],
        [cd concept_b concept_a, cd concept_a concept_a, cd concept_null concept_a],
        [cd concept_b concept_null, cd concept_a concept_null, cd concept_null concept_null]]"
  by (simp add: constellation_distance_def constellation_distance_emd_def
      phi_distributions_def all_concepts_of_def concept_a_def concept_b_def concept_null_def)


section \<open>Verification: the big MIP\<close>

text \<open>
  There are never more weakly than strongly connected components: when the test of
  \<open>_big_mip\<close> finds more than one component, the submatrix is not strongly
  connected.  The converse does not hold, as \<open>one_way\<close> shows below.
\<close>

lemma classes_mono:
  assumes "\<And>i j. i < n \<Longrightarrow> j < n \<Longrightarrow>
             set (filter (S i) [0..<n]) = set (filter (S j) [0..<n]) \<Longrightarrow>
             set (filter (R i) [0..<n]) = set (filter (R j) [0..<n])"
  shows "classes n R \<le> classes n S"
proof -
  let ?F = "\<lambda>i. set (filter (R i) [0..<n])"
  let ?G = "\<lambda>i. set (filter (S i) [0..<n])"
  define h where "h = (\<lambda>c. ?F (SOME i. i < n \<and> ?G i = c))"
  have "?F ` set [0..<n] \<subseteq> h ` (?G ` set [0..<n])"
  proof
    fix c assume "c \<in> ?F ` set [0..<n]"
    then obtain i where i: "i < n" "c = ?F i" by auto
    have ex: "\<exists>k. k < n \<and> ?G k = ?G i" using i(1) by blast
    define k where "k = (SOME k. k < n \<and> ?G k = ?G i)"
    have "k < n \<and> ?G k = ?G i"
      unfolding k_def using ex by (rule someI_ex)
    then have "?F k = ?F i"
      using assms [of k i] i(1) by blast
    then have "h (?G i) = c"
      using i(2) by (simp add: h_def k_def)
    with i(1) show "c \<in> h ` (?G ` set [0..<n])"
      by (metis (no_types, lifting) atLeastLessThan_iff image_eqI set_upt zero_le)
  qed
  then have "card (?F ` set [0..<n]) \<le> card (h ` (?G ` set [0..<n]))"
    by (intro card_mono) auto
  also have "\<dots> \<le> card (?G ` set [0..<n])"
    by (intro card_image_le) auto
  finally show ?thesis
    by (simp add: classes_def)
qed

lemma weak_le_strong:
  "connected_components cm \<le> strongly_connected_components cm"
  unfolding connected_components_def strongly_connected_components_def
proof (rule classes_mono)
  let ?n = "length cm"
  let ?E = "edges cm"
  let ?W = "(?E \<union> ?E\<inverse>)\<^sup>+"
  fix i j
  assume i: "i < ?n" and j: "j < ?n"
    and eq: "set (filter (\<lambda>k. i = k \<or> ((i, k) \<in> ?E\<^sup>+ \<and> (k, i) \<in> ?E\<^sup>+)) [0..<?n]) =
             set (filter (\<lambda>k. j = k \<or> ((j, k) \<in> ?E\<^sup>+ \<and> (k, j) \<in> ?E\<^sup>+)) [0..<?n])"
  have "i \<in> set (filter (\<lambda>k. i = k \<or> ((i, k) \<in> ?E\<^sup>+ \<and> (k, i) \<in> ?E\<^sup>+)) [0..<?n])"
    using i by simp
  with eq have "j = i \<or> ((j, i) \<in> ?E\<^sup>+ \<and> (i, j) \<in> ?E\<^sup>+)"
    by auto
  then have ij: "i = j \<or> ((i, j) \<in> ?W \<and> (j, i) \<in> ?W)"
    by (auto intro: trancl_mono)
  have sym: "(a, b) \<in> ?W \<Longrightarrow> (b, a) \<in> ?W" for a b
    by (metis converse_Un converse_converse sup_commute trancl_converseD converseI)
  have "(i = k \<or> (i, k) \<in> ?W) \<longleftrightarrow> (j = k \<or> (j, k) \<in> ?W)" for k
    using ij sym by (metis trancl_trans)
  then show "set (filter (\<lambda>k. i = k \<or> (i, k) \<in> ?W) [0..<?n]) =
             set (filter (\<lambda>k. j = k \<or> (j, k) \<in> ?W) [0..<?n])"
    by auto
qed

text \<open>
  Where \<open>_big_mip\<close> returns before its search: a subsystem that does not have exactly
  one node and is empty, or whose connectivity submatrix has more than one weakly
  connected component, gets the null BigMip and no bipartition is evaluated.
\<close>

lemma big_mip_impl_degenerate:
  assumes "length (nodes subsystem) \<noteq> 1"
    and "big_mip_impl ops cache_key subsystem = Inr (evaluated, mip)"
    and "nodes subsystem = [] \<or>
         1 < connected_components
               (map (\<lambda>i. map (\<lambda>j. connectivity_matrix ops (network subsystem) ! i ! j)
                              (map (node_index ops) (nodes subsystem)))
                    (map (node_index ops) (nodes subsystem)))"
  shows "evaluated = [] \<and> mip = null_mip subsystem"
  using assms
  by (auto simp: big_mip_impl_def Let_def split: if_splits sum.splits)


text \<open>
  Claim C3 says that a subsystem of more than one node whose connectivity submatrix has
  more than one strongly connected component gets the null BigMip and that no
  bipartition is evaluated.  The subsystem \<open>one_way\<close> has two nodes and the single edge
  from node 0 to node 1: two strongly connected components, one weakly connected
  component.  \<open>_big_mip\<close> goes on to its search, evaluates the bipartition
  \<open>((0), (1))\<close> and returns the result of that evaluation.
\<close>

lemma one_way_components:
  "connected_components [[0, 1], [0, 0]] = 1"
  "strongly_connected_components [[0, 1], [0, 0]] = 2"
  by code_simp+

theorem big_mip_impl_one_way:
  "1 < length (nodes one_way) \<and>
   strongly_connected_components (network one_way) = 2 \<and>
   big_mip_impl
     \<lparr>node_index = (\<lambda>n. n), connectivity_matrix = (\<lambda>net. net),
      single_nodes_with_selfloops_have_phi = flag, constellation = con,
      evaluate_partition = ev, bigmip_less = lt\<rparr> cache_key one_way =
     Inr ([([0], [1])], ev one_way ([0], [1]) (con one_way))"
proof -
  have "map (\<lambda>i. map (\<lambda>j. [[0, 1], [0, 0 :: nat]] ! i ! j) [0, 1 :: nat]) [0, 1 :: nat]
        = [[0, 1], [0, 0]]"
    by simp
  then show ?thesis
    using one_way_components
    by (simp add: big_mip_impl_def one_way_def init_subsystem_def Let_def)
qed

text \<open>
  The same evaluation with the remaining operations fixed: every evaluated partition
  gets phi 1, and the result has phi 1 where the null BigMip has phi 0.
\<close>

theorem big_mip_impl_one_way_witness:
  "big_mip_impl
     \<lparr>node_index = (\<lambda>n. n), connectivity_matrix = (\<lambda>net. net),
      single_nodes_with_selfloops_have_phi = False, constellation = (\<lambda>s. []),
      evaluate_partition =
        (\<lambda>s partition c. \<lparr>bigmip_subsystem = s, bigmip_phi = 1,
                             unpartitioned_constellation = Some c,
                             partitioned_constellation = Some ([] :: unit list)\<rparr>),
      bigmip_less = (\<lambda>a b. bigmip_phi a < bigmip_phi b)\<rparr> 0 one_way =
     Inr ([([0], [1])],
          \<lparr>bigmip_subsystem = one_way, bigmip_phi = 1,
           unpartitioned_constellation = Some [],
           partitioned_constellation = Some []\<rparr>)"
  using big_mip_impl_one_way
    [of False "\<lambda>s. []"
        "\<lambda>s partition c. \<lparr>bigmip_subsystem = s, bigmip_phi = 1,
                             unpartitioned_constellation = Some c,
                             partitioned_constellation = Some ([] :: unit list)\<rparr>"
        "\<lambda>a b. bigmip_phi a < bigmip_phi b" 0]
  by simp

section \<open>Verification: cause_repertoire\<close>

lemma nonneg_np_ones: "nonneg (np_ones sh)"
  by (simp add: nonneg_def np_ones_def)

lemma nonneg_take_index: "take_index a n axis k = Inr b \<Longrightarrow> nonneg a \<Longrightarrow> nonneg b"
  by (auto simp: take_index_def nonneg_def split: if_splits)

lemma nonneg_marginalize_out: "marginalize_out nd a = Inr b \<Longrightarrow> nonneg a \<Longrightarrow> nonneg b"
  by (auto simp: marginalize_out_def nonneg_def split: if_splits
      intro!: divide_nonneg_nonneg sum_list_nonneg)

lemma nonneg_np_multiply:
  "np_multiply a b = Inr c \<Longrightarrow> nonneg a \<Longrightarrow> nonneg b \<Longrightarrow> nonneg c"
  by (auto simp: np_multiply_def nonneg_def split: option.splits)

lemma nonneg_boundary_loop:
  "boundary_loop past n ns a = Inr b \<Longrightarrow> nonneg a \<Longrightarrow> nonneg b"
  by (induction ns arbitrary: a)
     (auto split: if_splits sum.splits dest: nonneg_take_index)

lemma nonneg_marginal_loop:
  "marginal_loop ns a = Inr b \<Longrightarrow> nonneg a \<Longrightarrow> nonneg b"
  by (induction ns arbitrary: a)
     (auto split: sum.splits dest: nonneg_marginalize_out)

lemma nonneg_conditioned_tpm_of:
  assumes "conditioned_tpm_of self purv nd = Inr t"
    and "probabilities (tpm nd)"
  shows "nonneg t"
proof -
  have "nonneg (tpm nd)" "nonneg (one_minus (tpm nd))"
    using assms(2) by (simp_all add: nonneg_def one_minus_def probabilities_def)
  then show ?thesis
    using assms(1)
    by (auto simp: conditioned_tpm_of_def Let_def split: if_splits sum.splits
        dest!: nonneg_boundary_loop nonneg_marginal_loop)
qed

lemma nonneg_mechanism_loop:
  "mechanism_loop self purv mech cjd = Inr cjd' \<Longrightarrow> nonneg cjd \<Longrightarrow>
   \<forall>nd\<in>set mech. probabilities (tpm nd) \<Longrightarrow>
   nonneg cjd'"
proof (induction mech arbitrary: cjd)
  case Nil
  then show ?case by simp
next
  case (Cons nd mech)
  from Cons.prems(1) obtain t c where t: "conditioned_tpm_of self purv nd = Inr t"
    and c: "np_multiply cjd t = Inr c" and rest: "mechanism_loop self purv mech c = Inr cjd'"
    by (auto split: sum.splits)
  have "nonneg t"
    using t Cons.prems(3) by (auto intro: nonneg_conditioned_tpm_of)
  with c Cons.prems(2) have "nonneg c"
    by (auto intro: nonneg_np_multiply)
  with rest Cons.IH Cons.prems(3) show ?case
    by auto
qed

lemma zero_sum_all_zero:
  assumes "nonneg a" "np_sum a = 0"
  shows "\<forall>i\<in>set (indices (shape a)). elems a i = 0"
proof -
  have "\<forall>x\<in>set (map (elems a) (indices (shape a))). x = 0"
    using assms by (subst sum_list_nonneg_eq_0_iff [symmetric]) (auto simp: nonneg_def np_sum_def)
  then show ?thesis by auto
qed

text \<open>
  Claim C7, as the code has it.  \<open>cause_repertoire\<close> tests the mechanism first:
  \<^item> for an empty mechanism it returns the maximum-entropy distribution of the
    purview, an array (also when the purview is empty);
  \<^item> for a mechanism that is not empty and an empty purview it returns the number 1;
  \<^item> for a mechanism and a purview that are not empty, when the loop over the
    mechanism has accumulated the joint \<open>cjd\<close> and its entries sum to exactly zero,
    it returns \<open>cjd\<close> as it is, not divided, and raises nothing;
  \<^item> when, moreover, the tables of the mechanism's nodes hold probabilities, every
    entry of that result is zero.
\<close>

theorem cause_repertoire_cases:
  "(mech = [] \<longrightarrow>
      cause_repertoire max_entropy self mech purv =
        Inr (Array (max_entropy purv (network self)))) \<and>
   (mech \<noteq> [] \<and> purv = [] \<longrightarrow>
      cause_repertoire max_entropy self mech purv = Inr (Scalar 1)) \<and>
   (mech \<noteq> [] \<and> purv \<noteq> [] \<and>
    accumulated_cjd self mech purv = Inr cjd \<and> np_sum cjd = 0 \<longrightarrow>
      cause_repertoire max_entropy self mech purv = Inr (Array cjd)) \<and>
   ((\<forall>nd\<in>set mech. probabilities (tpm nd)) \<and>
    accumulated_cjd self mech purv = Inr cjd \<and> np_sum cjd = 0 \<longrightarrow>
      (\<forall>i\<in>set (indices (shape cjd)). elems cjd i = 0))"
proof (intro conjI impI)
  assume "mech = []"
  then show "cause_repertoire max_entropy self mech purv =
      Inr (Array (max_entropy purv (network self)))"
    by (simp add: cause_repertoire_def)
next
  assume "mech \<noteq> [] \<and> purv = []"
  then show "cause_repertoire max_entropy self mech purv = Inr (Scalar 1)"
    by (simp add: cause_repertoire_def)
next
  assume "mech \<noteq> [] \<and> purv \<noteq> [] \<and>
    accumulated_cjd self mech purv = Inr cjd \<and> np_sum cjd = 0"
  then show "cause_repertoire max_entropy self mech purv = Inr (Array cjd)"
    by (simp add: cause_repertoire_def)
next
  assume h: "(\<forall>nd\<in>set mech. probabilities (tpm nd)) \<and>
    accumulated_cjd self mech purv = Inr cjd \<and> np_sum cjd = 0"
  then have "nonneg cjd"
    unfolding accumulated_cjd_def
    by (auto intro: nonneg_mechanism_loop [OF _ nonneg_np_ones])
  with h show "\<forall>i\<in>set (indices (shape cjd)). elems cjd i = 0"
    by (auto dest: zero_sum_all_zero)
qed

text \<open>
  Claim C7 on the subsystem of the node that is never on, in the state "on": the
  unconstrained repertoire over the node is uniform, \<open>(1/2, 1/2)\<close>; the repertoire
  over the empty purview is 1; the joint of the node as mechanism and purview is
  \<open>(0, 0)\<close>, of sum zero, and it is what is returned.
\<close>

theorem cause_repertoire_cases_witness:
  "cause_repertoire max_entropy_distribution never_on_subsystem [] [never_on] =
     Inr (Array \<lparr>shape = [2], elems = (\<lambda>i. 1 / 2)\<rparr>) \<and>
   cause_repertoire max_entropy_distribution never_on_subsystem [never_on] [] = Inr (Scalar 1) \<and>
   accumulated_cjd never_on_subsystem [never_on] [never_on] =
     Inr \<lparr>shape = [2], elems = (\<lambda>i. 0)\<rparr> \<and>
   np_sum \<lparr>shape = [2], elems = (\<lambda>i. 0)\<rparr> = 0 \<and>
   cause_repertoire max_entropy_distribution never_on_subsystem [never_on] [never_on] =
     Inr (Array \<lparr>shape = [2], elems = (\<lambda>i. 0)\<rparr>)"
proof -
  have acc: "accumulated_cjd never_on_subsystem [never_on] [never_on] =
      Inr \<lparr>shape = [2], elems = (\<lambda>i. 0)\<rparr>"
    by (simp add: accumulated_cjd_def conditioned_tpm_of_def never_on_subsystem_def
        init_subsystem_def never_on_network_def never_on_def np_ones_def purview_shape_def
        np_multiply_def broadcast_shape_def Let_def)
  have s: "np_sum \<lparr>shape = [2], elems = (\<lambda>i. 0)\<rparr> = 0"
    by (simp add: np_sum_def)
  have p: "\<forall>nd\<in>set [never_on]. probabilities (tpm nd)"
    by (simp add: never_on_def probabilities_def)
  note t = cause_repertoire_cases [of _ max_entropy_distribution never_on_subsystem]
  have "cause_repertoire max_entropy_distribution never_on_subsystem [] [never_on] =
      Inr (Array (max_entropy_distribution [never_on] (network never_on_subsystem)))"
    using t [of "[]" "[never_on]"] by simp
  moreover have "max_entropy_distribution [never_on] (network never_on_subsystem) =
      \<lparr>shape = [2], elems = (\<lambda>i. 1 / 2)\<rparr>"
    by (simp add: max_entropy_distribution_def purview_shape_def never_on_subsystem_def
        init_subsystem_def never_on_network_def)
  moreover have "cause_repertoire max_entropy_distribution never_on_subsystem [never_on] [] = Inr (Scalar 1)"
    using t [of "[never_on]" "[]"] by simp
  moreover have "cause_repertoire max_entropy_distribution never_on_subsystem [never_on] [never_on] =
      Inr (Array \<lparr>shape = [2], elems = (\<lambda>i. 0)\<rparr>)"
    using t [of "[never_on]" "[never_on]" "\<lparr>shape = [2], elems = (\<lambda>i. 0)\<rparr>"] acc s p
    by simp
  ultimately show ?thesis
    using acc s by simp
qed

text \<open>
  Claim C7 as it is worded has the number 1 returned whenever the purview is empty.
  With the mechanism empty too, the first test returns the maximum-entropy
  distribution over the empty purview, an array, and the test of the purview is not
  reached.
\<close>

theorem cause_repertoire_counterexample:
  "cause_repertoire max_entropy_distribution never_on_subsystem [] [] \<noteq> Inr (Scalar 1)"
  by (simp add: cause_repertoire_def)


end
